theory Spec2Isabelle
  imports Main "HOL-Library.Multiset"
begin

section \<open>Data model\<close>

text \<open>
  The three scripts (build, publish, archive in \<^verbatim>\<open>publish.ts\<close> and \<^verbatim>\<open>zip.ts\<close>, clean in
  the unnamed part) share the same \<^verbatim>\<open>Project\<close> interface, scanner, detector and worker
  loop.  The interfaces become records, the string union \<^verbatim>\<open>ProjectType\<close> a datatype.
\<close>

datatype ProjectType = Node | Dotnet | Unknown

record Project =
  path :: string
  ptype :: ProjectType
  manifestFile :: string

text \<open>A directory entry as \<^verbatim>\<open>readdir(..., { withFileTypes: true })\<close> yields it; the code reads
  only \<^verbatim>\<open>name\<close> and \<^verbatim>\<open>isDirectory()\<close>.\<close>

record Dirent =
  name :: string
  isDirectory :: bool

subsection \<open>The path library\<close>

text \<open>
  \<^verbatim>\<open>join\<close>, \<^verbatim>\<open>extname\<close> and \<^verbatim>\<open>basename\<close> are imported from \<^verbatim>\<open>node:path\<close>; they are
  not code of the repository, so the program is modelled over an arbitrary implementation of
  them.  \<open>posix\<close> below is the POSIX flavour of the library, used wherever a concrete run is
  evaluated.
\<close>

record pathlib =
  join :: "string \<Rightarrow> string \<Rightarrow> string"
  extname :: "string \<Rightarrow> string"
  basename :: "string \<Rightarrow> string"

fun splitOn :: "char \<Rightarrow> string \<Rightarrow> string list" where
  "splitOn c [] = [[]]"
| "splitOn c (x # xs) =
     (if x = c then [] # splitOn c xs
      else (case splitOn c xs of [] \<Rightarrow> [[x]] | s # ss \<Rightarrow> (x # s) # ss))"

fun joinWith :: "string \<Rightarrow> string list \<Rightarrow> string" where
  "joinWith sep [] = []"
| "joinWith sep [s] = s"
| "joinWith sep (s # t # ss) = s @ sep @ joinWith sep (t # ss)"

text \<open>Segment-wise normalisation: empty and \<^verbatim>\<open>.\<close> segments vanish, \<^verbatim>\<open>..\<close> removes the
  segment before it, or is kept when there is none and the path is relative.\<close>

fun normalizeSegments :: "bool \<Rightarrow> string list \<Rightarrow> string list \<Rightarrow> string list" where
  "normalizeSegments allowAboveRoot acc [] = rev acc"
| "normalizeSegments allowAboveRoot acc (s # ss) =
     (if s = [] \<or> s = ''.'' then normalizeSegments allowAboveRoot acc ss
      else if s = ''..'' then
        (case acc of
           [] \<Rightarrow> normalizeSegments allowAboveRoot (if allowAboveRoot then [''..''] else []) ss
         | t # ts \<Rightarrow>
             if t \<noteq> ''..'' then normalizeSegments allowAboveRoot ts ss
             else normalizeSegments allowAboveRoot (if allowAboveRoot then ''..'' # acc else acc) ss)
      else normalizeSegments allowAboveRoot (s # acc) ss)"

definition posix_normalize :: "string \<Rightarrow> string" where
  "posix_normalize p =
     (if p = [] then ''.''
      else
        (let isAbsolute = (hd p = CHR ''/'');
             trailingSeparator = (last p = CHR ''/'');
             body = joinWith ''/'' (normalizeSegments (\<not> isAbsolute) [] (splitOn (CHR ''/'') p))
         in if body = [] then (if isAbsolute then ''/'' else if trailingSeparator then ''./'' else ''.'')
            else (if isAbsolute then ''/'' else []) @ body @ (if trailingSeparator then ''/'' else [])))"

definition posix_join :: "string \<Rightarrow> string \<Rightarrow> string" where
  "posix_join a b =
     (if a = [] \<and> b = [] then ''.''
      else posix_normalize (if a = [] then b else if b = [] then a else a @ ''/'' @ b))"

definition posix_basename :: "string \<Rightarrow> string" where
  "posix_basename p =
     (case filter (\<lambda>s. s \<noteq> []) (splitOn (CHR ''/'') p) of [] \<Rightarrow> [] | ss \<Rightarrow> last ss)"

text \<open>The extension of the last path component: from its last dot on, unless there is no dot,
  the dot is the first character, or the component is \<^verbatim>\<open>..\<close>.\<close>

definition posix_extname :: "string \<Rightarrow> string" where
  "posix_extname p =
     (let b = posix_basename p;
          stem = dropWhile (\<lambda>c. c \<noteq> CHR ''.'') (rev b)
      in if stem = [] \<or> tl stem = [] \<or> b = ''..'' then []
         else drop (length stem - 1) b)"

definition posix :: pathlib where
  "posix = \<lparr> join = posix_join, extname = posix_extname, basename = posix_basename \<rparr>"

section \<open>Project detection\<close>

definition dotnetExtensions :: "string list" where
  "dotnetExtensions = [''.csproj'', ''.vbproj'', ''.fsproj'']"

definition detectProject :: "pathlib \<Rightarrow> string \<Rightarrow> Dirent list \<Rightarrow> Project option" where
  "detectProject L dir entries =
     (if list_ex (\<lambda>entry. name entry = ''package.json'') entries
      then Some \<lparr> path = dir, ptype = Node, manifestFile = join L dir ''package.json'' \<rparr>
      else
        (case find (\<lambda>entry. extname L (name entry) \<in> set dotnetExtensions) entries of
           Some dotnetProjectFile \<Rightarrow>
             Some \<lparr> path = dir, ptype = Dotnet, manifestFile = join L dir (name dotnetProjectFile) \<rparr>
         | None \<Rightarrow> None))"

section \<open>Directory scanning\<close>

text \<open>The absolute-path test of \<^verbatim>\<open>scanDirectories\<close>:
  \<^verbatim>\<open>dir.startsWith("\\") || /^[A-Za-z]:/.test(dir) ? dir : join(process.cwd(), dir)\<close>.\<close>

definition asciiLetter :: "char \<Rightarrow> bool" where
  "asciiLetter c \<longleftrightarrow>
     c \<in> set ''ABCDEFGHIJKLMNOPQRSTUVWXYZabcdefghijklmnopqrstuvwxyz''"

fun startsWithBackslash :: "string \<Rightarrow> bool" where
  "startsWithBackslash (c # cs) = (c = CHR 0x5C)"
| "startsWithBackslash [] = False"

fun startsWithDrive :: "string \<Rightarrow> bool" where
  "startsWithDrive (c # d # cs) = (asciiLetter c \<and> d = CHR '':'')"
| "startsWithDrive cs = False"

definition fullPath :: "pathlib \<Rightarrow> string \<Rightarrow> string \<Rightarrow> string" where
  "fullPath L cwd dir =
     (if startsWithBackslash dir \<or> startsWithDrive dir then dir else join L cwd dir)"

text \<open>
  The file system as the scanner sees it: a finite table from path strings to the directory
  each denotes, and the listing of every directory.  Two path strings may denote the same
  directory (a symbolic link, a trailing separator).  \<^verbatim>\<open>readdir\<close> throws where the path
  denotes no directory.
\<close>

record filesystem =
  cwd :: string
  paths :: "(string \<times> nat) list"
  listing :: "(nat \<times> Dirent list) list"

definition directoryOf :: "filesystem \<Rightarrow> string \<Rightarrow> nat option" where
  "directoryOf fs p =
     (case map_of (paths fs) p of
        None \<Rightarrow> None
      | Some d \<Rightarrow> (case map_of (listing fs) d of None \<Rightarrow> None | Some entries \<Rightarrow> Some d))"

definition readdir :: "filesystem \<Rightarrow> string \<Rightarrow> Dirent list option" where
  "readdir fs p =
     (case map_of (paths fs) p of None \<Rightarrow> None | Some d \<Rightarrow> map_of (listing fs) d)"

definition subdirectoriesOf :: "pathlib \<Rightarrow> string \<Rightarrow> Dirent list \<Rightarrow> string list" where
  "subdirectoriesOf L fp entries =
     map (\<lambda>entry. join L fp (name entry))
       (filter (\<lambda>entry. isDirectory entry \<and> name entry \<noteq> ''node_modules'') entries)"

text \<open>
  \<^verbatim>\<open>scanDirectories\<close> returns the projects found; the model returns with them the
  \<^verbatim>\<open>visited\<close> set as the call leaves it (the source mutates one shared \<^verbatim>\<open>Set\<close>) and the
  paths \<^verbatim>\<open>readdir\<close> was called on, in call order.  A \<^verbatim>\<open>readdir\<close> that throws is caught
  inside the loop body and the loop goes on.
\<close>

function scanDirectories ::
  "pathlib \<Rightarrow> filesystem \<Rightarrow> string list \<Rightarrow> string set \<Rightarrow> Project list \<times> string set \<times> string list"
where
  "scanDirectories L fs [] visited = ([], visited, [])"
| "scanDirectories L fs (dir # dirs) visited =
     (let fp = fullPath L (cwd fs) dir in
      if fp \<in> visited then scanDirectories L fs dirs visited
      else
        (case readdir fs fp of
           None \<Rightarrow>
             (case scanDirectories L fs dirs (insert fp visited) of
                (rest, v, reads) \<Rightarrow> (rest, v, fp # reads))
         | Some entries \<Rightarrow>
             (case scanDirectories L fs (subdirectoriesOf L fp entries) (insert fp visited) of
                (subProjects, v1, reads1) \<Rightarrow>
                  (case scanDirectories L fs dirs v1 of
                     (rest, v2, reads2) \<Rightarrow>
                       ((case detectProject L fp entries of Some p \<Rightarrow> [p] | None \<Rightarrow> [])
                          @ subProjects @ rest,
                        v2, fp # reads1 @ reads2)))))"
  by pat_completeness auto

text \<open>The scan terminates because the table of readable paths is finite: every call either
  shortens the list of directories or marks one more readable path as visited.\<close>

termination scanDirectories
proof (relation "(\<lambda>(L, fs, dirs, visited). card ({p. readdir fs p \<noteq> None} - visited))
                   <*mlex*> measure (\<lambda>(L, fs, dirs, visited). length dirs)", goal_cases)
  case 1
  show ?case by (simp add: wf_mlex)
next
  case (2 L fs dir dirs visited fp)
  then show ?case by (auto intro: mlex_less mlex_leq)
next
  case (3 L fs dir dirs visited fp)
  have fin: "finite {p. readdir fs p \<noteq> None}"
    by (rule finite_subset[OF _ finite_dom_map_of[of "paths fs"]])
       (auto simp: readdir_def split: option.splits)
  have "card ({p. readdir fs p \<noteq> None} - insert fp visited)
          \<le> card ({p. readdir fs p \<noteq> None} - visited)"
    by (rule card_mono[OF finite_Diff[OF fin]]) auto
  then show ?case by (auto intro!: mlex_leq)
next
  case (4 L fs dir dirs visited fp entries)
  have fin: "finite {p. readdir fs p \<noteq> None}"
    by (rule finite_subset[OF _ finite_dom_map_of[of "paths fs"]])
       (auto simp: readdir_def split: option.splits)
  have "card ({p. readdir fs p \<noteq> None} - insert fp visited)
          < card ({p. readdir fs p \<noteq> None} - visited)"
    using 4 by (intro psubset_card_mono[OF finite_Diff[OF fin]]) auto
  then show ?case by (auto intro!: mlex_less)
next
  case (5 L fs dir dirs visited fp entries sub y v1 r1)
  have fin: "finite {p. readdir fs p \<noteq> None}"
    by (rule finite_subset[OF _ finite_dom_map_of[of "paths fs"]])
       (auto simp: readdir_def split: option.splits)
  have mono: "visited \<subseteq> fst (snd (scanDirectories L fs dirs visited))"
    if "scanDirectories_dom (L, fs, dirs, visited)" for L fs dirs visited
    using that
  proof (induction L fs dirs visited rule: scanDirectories.pinduct)
    case (1 L fs visited)
    then show ?case by (simp add: scanDirectories.psimps)
  next
    case (2 L fs dir dirs visited)
    define fp where "fp = fullPath L (cwd fs) dir"
    note dom = "2.hyps"
    show ?case
    proof (cases "fp \<in> visited")
      case True
      with 2 show ?thesis by (simp add: scanDirectories.psimps fp_def)
    next
      case nv: False
      show ?thesis
      proof (cases "readdir fs fp")
        case None
        with nv "2.IH"(2)[OF fp_def] show ?thesis
          using dom by (auto simp: scanDirectories.psimps fp_def[symmetric] split: prod.splits)
      next
        case (Some entries)
        obtain sub v1 r1 where s1:
          "scanDirectories L fs (subdirectoriesOf L fp entries) (insert fp visited) = (sub, v1, r1)"
          by (cases "scanDirectories L fs (subdirectoriesOf L fp entries) (insert fp visited)") auto
        obtain rest v2 r2 where s2: "scanDirectories L fs dirs v1 = (rest, v2, r2)"
          by (cases "scanDirectories L fs dirs v1") auto
        from "2.IH"(3)[OF fp_def nv Some] s1 have a: "insert fp visited \<subseteq> v1" by simp
        from "2.IH"(4)[OF fp_def nv Some s1[symmetric] refl] s2 have b: "v1 \<subseteq> v2" by simp
        from dom nv Some s1 s2 a b show ?thesis
          by (auto simp: scanDirectories.psimps fp_def[symmetric])
      qed
    qed
  qed
  have "scanDirectories L fs (subdirectoriesOf L fp entries) (insert fp visited) = (sub, v1, r1)"
    using 5 by simp
  with mono[OF 5(6)] have "visited \<subseteq> v1" by auto
  then have "card ({p. readdir fs p \<noteq> None} - v1) \<le> card ({p. readdir fs p \<noteq> None} - visited)"
    by (intro card_mono[OF finite_Diff[OF fin]]) auto
  then show ?case by (auto intro!: mlex_leq)
qed

section \<open>Operation results\<close>

text \<open>
  The result messages are template strings; each template is a constructor here, carrying the
  values the template interpolates, so that two results are equal exactly when their texts
  are built from the same template and values.
  \<^item> \<open>DryRunExec command dir\<close>: the \<^verbatim>\<open>[DRY RUN]\<close> line of build and publish
    (\<^verbatim>\<open>publish.ts\<close> lines 183, 205, 243, 603);
  \<^item> \<open>ExecSucceeded command dir\<close> (lines 216, 255, 615), \<open>ExecFailed command dir\<close> (line 622);
  \<^item> \<open>PublishNodeFailed dir\<close> (line 223), \<open>PublishDotnetFailed dir\<close> (line 262);
  \<^item> \<open>UnknownProjectType\<close> (lines 284, 596);
  \<^item> \<open>NoBuildScript dir\<close> (line 578), \<open>ReadPackageJsonFailed err\<close> (line 588);
  \<^item> \<open>DryRunZip dir outputFilename\<close> (\<^verbatim>\<open>zip.ts\<close> line 285), \<open>NothingToCompress dir\<close> (line 314),
    \<open>ZipSucceeded dir outputFilename\<close> (line 361), \<open>ZipFailed dir\<close> (line 367);
  \<^item> \<open>DryRunDelete filePath\<close> (clean script line 177), \<open>DeleteFailed file\<close> (line 189),
    \<open>CleanSucceeded dir totalCleaned\<close> (line 199), \<open>CleanFailed dir\<close> (line 204).
\<close>

datatype Message =
    DryRunExec string string
  | ExecSucceeded string string
  | ExecFailed string string
  | PublishNodeFailed string
  | PublishDotnetFailed string
  | UnknownProjectType ProjectType
  | NoBuildScript string
  | ReadPackageJsonFailed string
  | DryRunZip string string
  | NothingToCompress string
  | ZipSucceeded string string
  | ZipFailed string
  | DryRunDelete string
  | DeleteFailed string
  | CleanSucceeded string nat
  | CleanFailed string

text \<open>What a strategy returns, and the \<^verbatim>\<open>ProcessResult\<close> the worker loop builds from it.\<close>

record OpResult =
  success :: bool
  message :: Message
  error :: "string option"
  outputFile :: "string option"

record ProcessResult = OpResult +
  project :: Project

definition processResult :: "Project \<Rightarrow> OpResult \<Rightarrow> ProcessResult" where
  "processResult p r =
     \<lparr> success = success r, message = message r, error = error r,
       outputFile = outputFile r, project = p \<rparr>"

section \<open>The worker loop\<close>

text \<open>
  \<^verbatim>\<open>main\<close> starts \<^verbatim>\<open>concurrency\<close> copies of \<^verbatim>\<open>processQueue\<close> over the shared array
  \<^verbatim>\<open>projects\<close>, the shared array \<^verbatim>\<open>results\<close> and the counter \<^verbatim>\<open>processed\<close>.  A worker is
  at the head of its \<^verbatim>\<open>while\<close> loop, suspended at \<^verbatim>\<open>await\<close> on the project it has
  shifted off the queue, or has left the loop.  Between two suspension points a worker runs
  alone, so one step of the system is one of:
  \<^item> a worker at the loop head finds the queue non-empty, shifts its head off, counts it and
    starts the operation;
  \<^item> a worker at the loop head finds the queue empty and returns;
  \<^item> the operation a worker awaits completes with some result, which the worker pushes.
  Which worker moves next, and what the operation returns, is left open.
\<close>

datatype Worker = AtLoopHead | Awaiting Project | Returned

record Dispatch =
  projects :: "Project list"
  results :: "ProcessResult list"
  processed :: nat
  workers :: "Worker list"

definition startWorkers :: "nat \<Rightarrow> Project list \<Rightarrow> Dispatch" where
  "startWorkers concurrency ps =
     \<lparr> projects = ps, results = [], processed = 0, workers = replicate concurrency AtLoopHead \<rparr>"

inductive processQueue :: "Dispatch \<Rightarrow> Dispatch \<Rightarrow> bool" where
  shift:
    "i < length (workers s) \<Longrightarrow> workers s ! i = AtLoopHead \<Longrightarrow> projects s = p # rest \<Longrightarrow>
     processQueue s (s\<lparr> projects := rest, processed := processed s + 1,
                         workers := (workers s)[i := Awaiting p] \<rparr>)"
| leave:
    "i < length (workers s) \<Longrightarrow> workers s ! i = AtLoopHead \<Longrightarrow> projects s = [] \<Longrightarrow>
     processQueue s (s\<lparr> workers := (workers s)[i := Returned] \<rparr>)"
| push:
    "i < length (workers s) \<Longrightarrow> workers s ! i = Awaiting p \<Longrightarrow>
     processQueue s (s\<lparr> results := results s @ [processResult p r],
                         workers := (workers s)[i := AtLoopHead] \<rparr>)"

text \<open>\<^verbatim>\<open>Promise.all(workers)\<close> resolves when every worker has returned.\<close>

definition allReturned :: "Dispatch \<Rightarrow> bool" where
  "allReturned s \<longleftrightarrow> list_all (\<lambda>w. w = Returned) (workers s)"

fun inFlight :: "Worker list \<Rightarrow> Project list" where
  "inFlight [] = []"
| "inFlight (Awaiting p # ws) = p # inFlight ws"
| "inFlight (w # ws) = inFlight ws"

fun workerWeight :: "Worker \<Rightarrow> nat" where
  "workerWeight AtLoopHead = 1"
| "workerWeight (Awaiting p) = 2"
| "workerWeight Returned = 0"

definition remainingWork :: "Dispatch \<Rightarrow> nat" where
  "remainingWork s = 3 * length (projects s) + sum_list (map workerWeight (workers s))"

text \<open>What holds of every state the workers can reach: each submitted project is in the
  queue, in flight at exactly one worker, or has its result; and once a worker has returned
  the queue is empty.\<close>

definition dispatchInvariant :: "nat \<Rightarrow> Project list \<Rightarrow> Dispatch \<Rightarrow> bool" where
  "dispatchInvariant concurrency ps s \<longleftrightarrow>
     mset (projects s) + mset (inFlight (workers s)) + mset (map project (results s)) = mset ps
     \<and> processed s + length (projects s) = length ps
     \<and> length (workers s) = concurrency
     \<and> (Returned \<in> set (workers s) \<longrightarrow> projects s = [])"

section \<open>The system the strategies run on\<close>

datatype CompressionFormat = Zip | Tar | Tgz

record CompressionConfig =
  files :: "string list option"
  exclude :: "string list option"
  format :: "CompressionFormat option"
  outputTemplate :: "string option"

text \<open>What the strategies read of a parsed \<^verbatim>\<open>package.json\<close>: the \<^verbatim>\<open>scripts\<close> object and the
  \<^verbatim>\<open>zip\<close> object, each absent or present.\<close>

record PackageJson =
  scripts :: "(string \<times> string) list option"
  zipConfig :: "CompressionConfig option"

text \<open>The command-line options of the three scripts.\<close>

record Options =
  dryRun :: bool
  verbose :: bool
  configuration :: string
  formatOption :: CompressionFormat
  outputOption :: string

datatype ExecOutcome = ExecOk string string | ExecError string string

datatype StatKind = IsDirectory | IsFile | IsOther

datatype 'w RemoveOutcome = Removed 'w | NotFound | RemoveError string

datatype ArchiveEntry = DirectoryEntry string string | FileEntry string string

text \<open>
  Everything outside the scripts is a parameter: a state \<open>'w\<close> of the world (files,
  installed programs, clock) and what each call does in it.
  \<^item> \<open>readPackageJson w file\<close>: \<^verbatim>\<open>readFile\<close>, \<^verbatim>\<open>JSON.parse\<close> and the property reads that
    follow; \<open>Inl\<close> is the message of the error thrown;
  \<^item> \<open>exec w command cwd\<close>: the promisified \<^verbatim>\<open>exec\<close>; \<open>ExecOk stdout stderr\<close> when it
    resolves, \<open>ExecError stderr message\<close> when it rejects; the process may change the world;
  \<^item> \<open>glob w pattern cwd\<close>: the matches, or the message of the error thrown;
  \<^item> \<open>remove w path recursive\<close>: removing a path; \<open>NotFound\<close> when there is nothing at it;
  \<^item> \<open>stat w path\<close>, \<open>toISOString w\<close> (the clock), \<open>createWriteStream w path\<close>;
  \<^item> \<open>finalize w outputPath format entries\<close>: the archiver writing the entries appended to it.
\<close>

record 'w System =
  readPackageJson :: "'w \<Rightarrow> string \<Rightarrow> string + PackageJson"
  exec :: "'w \<Rightarrow> string \<Rightarrow> string option \<Rightarrow> ExecOutcome \<times> 'w"
  glob :: "'w \<Rightarrow> string \<Rightarrow> string \<Rightarrow> string + string list"
  remove :: "'w \<Rightarrow> string \<Rightarrow> bool \<Rightarrow> 'w RemoveOutcome"
  stat :: "'w \<Rightarrow> string \<Rightarrow> string + StatKind"
  toISOString :: "'w \<Rightarrow> string"
  createWriteStream :: "'w \<Rightarrow> string \<Rightarrow> 'w"
  finalize :: "'w \<Rightarrow> string \<Rightarrow> CompressionFormat \<Rightarrow> ArchiveEntry list \<Rightarrow> string + 'w"

text \<open>Every strategy returns, with its result, the world it leaves and the calls it made, in
  order.  Of the console output only the \<^verbatim>\<open>[DRY RUN]\<close> lines are recorded.\<close>

datatype RmStatus = Deleted | Absent | Failed string

datatype Event =
    ReadFile string
  | Exec string "string option"
  | Glob string string
  | Rm string RmStatus
  | Stat string
  | CreateWriteStream string
  | Archive ArchiveEntry
  | Finalize string
  | Console Message

definition ok :: "Message \<Rightarrow> string option \<Rightarrow> OpResult" where
  "ok m e = \<lparr> success = True, message = m, error = e, outputFile = None \<rparr>"

definition failure :: "Message \<Rightarrow> string option \<Rightarrow> OpResult" where
  "failure m e = \<lparr> success = False, message = m, error = e, outputFile = None \<rparr>"

subsection \<open>Build and publish\<close>

definition pnpmProbe :: Event where
  "pnpmProbe = Exec ''pnpm --version'' None"

definition checkPnpmAvailable :: "'w System \<Rightarrow> 'w \<Rightarrow> bool \<times> 'w" where
  "checkPnpmAvailable S w =
     (case exec S w ''pnpm --version'' None of
        (ExecOk stdout stderr, w') \<Rightarrow> (True, w')
      | (ExecError stderr msg, w') \<Rightarrow> (False, w'))"

text \<open>\<^verbatim>\<open>packageJson.scripts && packageJson.scripts.build\<close>: the empty string is falsy.\<close>

definition hasBuildScript :: "PackageJson \<Rightarrow> bool" where
  "hasBuildScript packageJson =
     (case scripts packageJson of
        None \<Rightarrow> False
      | Some sc \<Rightarrow> (case map_of sc ''build'' of None \<Rightarrow> False | Some b \<Rightarrow> b \<noteq> []))"

text \<open>\<^verbatim>\<open>error.stderr || error.message\<close> and \<^verbatim>\<open>...(verbose && { error: output })\<close>.\<close>

definition errorMessage :: "string \<Rightarrow> string \<Rightarrow> string" where
  "errorMessage stderr msg = (if stderr \<noteq> [] then stderr else msg)"

definition verboseOutput :: "bool \<Rightarrow> string \<Rightarrow> string \<Rightarrow> string option" where
  "verboseOutput v stdout stderr = (if v then Some (stdout @ [CHR 0x0A] @ stderr) else None)"

text \<open>The second half of \<^verbatim>\<open>executeBuild\<close>, from \<^verbatim>\<open>if (dryRun)\<close> on, once \<^verbatim>\<open>command\<close> is set.\<close>

definition runBuild ::
  "'w System \<Rightarrow> 'w \<Rightarrow> Project \<Rightarrow> Options \<Rightarrow> string \<Rightarrow> OpResult \<times> 'w \<times> Event list" where
  "runBuild S w proj options command =
     (if dryRun options then (ok (DryRunExec command (path proj)) None, w, [])
      else
        (case exec S w command (Some (path proj)) of
           (ExecOk stdout stderr, w') \<Rightarrow>
             (ok (ExecSucceeded command (path proj)) (verboseOutput (verbose options) stdout stderr),
              w', [Exec command (Some (path proj))])
         | (ExecError stderr msg, w') \<Rightarrow>
             (failure (ExecFailed command (path proj)) (Some (errorMessage stderr msg)),
              w', [Exec command (Some (path proj))])))"

definition executeBuild ::
  "'w System \<Rightarrow> 'w \<Rightarrow> Project \<Rightarrow> Options \<Rightarrow> OpResult \<times> 'w \<times> Event list" where
  "executeBuild S w proj options =
     (case ptype proj of
        Node \<Rightarrow>
          (case readPackageJson S w (manifestFile proj) of
             Inl err \<Rightarrow>
               (failure (ReadPackageJsonFailed err) None, w, [ReadFile (manifestFile proj)])
           | Inr packageJson \<Rightarrow>
               if \<not> hasBuildScript packageJson
               then (failure (NoBuildScript (path proj)) None, w, [ReadFile (manifestFile proj)])
               else
                 (case checkPnpmAvailable S w of
                    (isPnpmAvailable, w1) \<Rightarrow>
                      (case runBuild S w1 proj options
                              (if isPnpmAvailable then ''pnpm run build'' else ''npm run build'') of
                         (r, w2, tr) \<Rightarrow> (r, w2, [ReadFile (manifestFile proj), pnpmProbe] @ tr))))
      | Dotnet \<Rightarrow>
          runBuild S w proj options
            (''dotnet build '' @ [CHR 0x22] @ manifestFile proj @ [CHR 0x22] @ '' -c ''
               @ configuration options)
      | Unknown \<Rightarrow> (failure (UnknownProjectType (ptype proj)) None, w, []))"





subsection \<open>Archive\<close>

text \<open>The string methods the archive script uses: \<^verbatim>\<open>startsWith\<close>, \<^verbatim>\<open>endsWith\<close>,
  \<^verbatim>\<open>includes\<close>, and \<^verbatim>\<open>replace\<close> with a string pattern, which replaces the first occurrence
  and expands \<^verbatim>\<open>$$\<close>, \<^verbatim>\<open>$&\<close>, \<^verbatim>\<open>$`\<close> and \<^verbatim>\<open>$'\<close> in the replacement.\<close>

definition startsWith :: "string \<Rightarrow> string \<Rightarrow> bool" where
  "startsWith s p \<longleftrightarrow> take (length p) s = p"

definition endsWith :: "string \<Rightarrow> string \<Rightarrow> bool" where
  "endsWith s p \<longleftrightarrow> length p \<le> length s \<and> drop (length s - length p) s = p"

fun includesStr :: "string \<Rightarrow> string \<Rightarrow> bool" where
  "includesStr [] p = (p = [])"
| "includesStr (c # cs) p = (startsWith (c # cs) p \<or> includesStr cs p)"

fun substitute :: "string \<Rightarrow> string \<Rightarrow> string \<Rightarrow> string \<Rightarrow> string" where
  "substitute matched preceding following (c # d # cs) =
     (if c = CHR ''$'' \<and> d = CHR ''$'' then CHR ''$'' # substitute matched preceding following cs
      else if c = CHR ''$'' \<and> d = CHR ''&'' then matched @ substitute matched preceding following cs
      else if c = CHR ''$'' \<and> d = CHR 0x60 then preceding @ substitute matched preceding following cs
      else if c = CHR ''$'' \<and> d = CHR 0x27 then following @ substitute matched preceding following cs
      else c # substitute matched preceding following (d # cs))"
| "substitute matched preceding following cs = cs"

fun findFirst :: "string \<Rightarrow> string \<Rightarrow> string \<Rightarrow> (string \<times> string) option" where
  "findFirst p passed [] = (if p = [] then Some (rev passed, []) else None)"
| "findFirst p passed (c # cs) =
     (if startsWith (c # cs) p then Some (rev passed, drop (length p) (c # cs))
      else findFirst p (c # passed) cs)"

definition replace :: "string \<Rightarrow> string \<Rightarrow> string \<Rightarrow> string" where
  "replace s p replacement =
     (case findFirst p [] s of
        None \<Rightarrow> s
      | Some (preceding, following) \<Rightarrow> preceding @ substitute p preceding following replacement @ following)"

definition formatName :: "CompressionFormat \<Rightarrow> string" where
  "formatName f = (case f of Zip \<Rightarrow> ''zip'' | Tar \<Rightarrow> ''tar'' | Tgz \<Rightarrow> ''tgz'')"

definition nodeDefaultConfig :: "CompressionFormat \<Rightarrow> CompressionConfig" where
  "nodeDefaultConfig defaultFormat =
     \<lparr> files = Some [''dist'', ''build'', ''out''],
       exclude = Some [''node_modules'', ''*.log'', ''.git''],
       format = Some defaultFormat,
       outputTemplate = Some ''{project}-{timestamp}.{format}'' \<rparr>"

definition dotnetDefaultConfig :: "CompressionFormat \<Rightarrow> CompressionConfig" where
  "dotnetDefaultConfig defaultFormat =
     \<lparr> files = Some [''bin/Release'', ''bin/Debug'', ''publish''],
       exclude = Some [''obj'', ''node_modules'', ''*.log'', ''.git''],
       format = Some defaultFormat,
       outputTemplate = Some ''{project}-{timestamp}.{format}'' \<rparr>"

definition fallbackConfig :: "CompressionFormat \<Rightarrow> CompressionConfig" where
  "fallbackConfig defaultFormat =
     \<lparr> files = Some [''dist'', ''build'', ''out'', ''bin'', ''publish''],
       exclude = Some [''node_modules'', ''*.log'', ''.git''],
       format = Some defaultFormat,
       outputTemplate = Some ''{project}-{timestamp}.{format}'' \<rparr>"

text \<open>\<^verbatim>\<open>{ ...defaultConfig, ...packageJson.zip }\<close>: a key of the \<^verbatim>\<open>zip\<close> object replaces the
  default, a missing key or a missing object leaves it.\<close>

definition mergeConfig :: "CompressionConfig \<Rightarrow> CompressionConfig option \<Rightarrow> CompressionConfig" where
  "mergeConfig d z =
     (case z of
        None \<Rightarrow> d
      | Some c \<Rightarrow>
          \<lparr> files = (case files c of Some x \<Rightarrow> Some x | None \<Rightarrow> files d),
            exclude = (case exclude c of Some x \<Rightarrow> Some x | None \<Rightarrow> exclude d),
            format = (case format c of Some x \<Rightarrow> Some x | None \<Rightarrow> format d),
            outputTemplate =
              (case outputTemplate c of Some x \<Rightarrow> Some x | None \<Rightarrow> outputTemplate d) \<rparr>)"

definition readCompressionConfig ::
  "'w System \<Rightarrow> 'w \<Rightarrow> Project \<Rightarrow> CompressionFormat \<Rightarrow> CompressionConfig \<times> Event list" where
  "readCompressionConfig S w proj defaultFormat =
     (case ptype proj of
        Node \<Rightarrow>
          (case readPackageJson S w (manifestFile proj) of
             Inr packageJson \<Rightarrow>
               (mergeConfig (nodeDefaultConfig defaultFormat) (zipConfig packageJson),
                [ReadFile (manifestFile proj)])
           | Inl err \<Rightarrow> (fallbackConfig defaultFormat, [ReadFile (manifestFile proj)]))
      | Dotnet \<Rightarrow> (dotnetDefaultConfig defaultFormat, [])
      | Unknown \<Rightarrow> (fallbackConfig defaultFormat, []))"

text \<open>\<^verbatim>\<open>new Date().toISOString().replace(/[:.]/g, "-").slice(0, 19)\<close>, from the clock's string.\<close>

definition timestampOf :: "string \<Rightarrow> string" where
  "timestampOf isoString = take 19 (map (\<lambda>c. if c = CHR '':'' \<or> c = CHR ''.'' then CHR ''-'' else c) isoString)"

definition generateOutputFilename ::
  "pathlib \<Rightarrow> string \<Rightarrow> Project \<Rightarrow> CompressionFormat \<Rightarrow> string \<Rightarrow> string" where
  "generateOutputFilename L isoString proj fmt template =
     replace
       (replace (replace template ''{project}'' (basename L (path proj)))
          ''{timestamp}'' (timestampOf isoString))
       ''{format}'' (formatName fmt)"

definition matchesPattern :: "string \<Rightarrow> string \<Rightarrow> bool" where
  "matchesPattern pathName pattern =
     (if startsWith pattern ''*'' \<and> endsWith pattern ''*''
        then includesStr pathName (butlast (tl pattern))
      else if startsWith pattern ''*'' then endsWith pathName (tl pattern)
      else if endsWith pattern ''*'' then startsWith pathName (butlast pattern)
      else pathName = pattern)"

definition shouldExclude :: "pathlib \<Rightarrow> string \<Rightarrow> string list \<Rightarrow> bool" where
  "shouldExclude L p excludePatterns =
     (let pathName = basename L p in list_ex (matchesPattern pathName) excludePatterns)"

text \<open>The first loop of \<^verbatim>\<open>executeZip\<close>: the include entries that exist and are not excluded.
  A \<^verbatim>\<open>stat\<close> that throws is caught and the entry skipped.\<close>

fun collectFiles ::
  "'w System \<Rightarrow> pathlib \<Rightarrow> 'w \<Rightarrow> string \<Rightarrow> string list \<Rightarrow> string list
     \<Rightarrow> string list \<times> Event list" where
  "collectFiles S L w dir excludePatterns [] = ([], [])"
| "collectFiles S L w dir excludePatterns (pattern # rest) =
     (let fp = join L dir pattern;
          keep = (case stat S w fp of
                    Inl err \<Rightarrow> False
                  | Inr fileStat \<Rightarrow>
                      (fileStat = IsDirectory \<or> fileStat = IsFile)
                        \<and> \<not> shouldExclude L fp excludePatterns)
      in case collectFiles S L w dir excludePatterns rest of
           (filesToCompress, tr) \<Rightarrow>
             (if keep then pattern # filesToCompress else filesToCompress, Stat fp # tr))"

text \<open>The second loop: each surviving entry is appended whole, a directory with all it
  holds.  A \<^verbatim>\<open>stat\<close> that throws here leaves the function through the outer \<^verbatim>\<open>catch\<close>.\<close>

fun addEntries ::
  "'w System \<Rightarrow> pathlib \<Rightarrow> 'w \<Rightarrow> string \<Rightarrow> string list
     \<Rightarrow> (string + ArchiveEntry list) \<times> Event list" where
  "addEntries S L w dir [] = (Inr [], [])"
| "addEntries S L w dir (filePattern # rest) =
     (let fp = join L dir filePattern
      in case stat S w fp of
           Inl err \<Rightarrow> (Inl err, [Stat fp])
         | Inr statInfo \<Rightarrow>
             (let entry = (if statInfo = IsDirectory
                           then DirectoryEntry fp (basename L filePattern)
                           else FileEntry fp (basename L filePattern))
              in case addEntries S L w dir rest of
                   (Inl err, tr) \<Rightarrow> (Inl err, Stat fp # Archive entry # tr)
                 | (Inr entries, tr) \<Rightarrow> (Inr (entry # entries), Stat fp # Archive entry # tr)))"

definition executeZip ::
  "'w System \<Rightarrow> pathlib \<Rightarrow> 'w \<Rightarrow> Project \<Rightarrow> Options \<Rightarrow> OpResult \<times> 'w \<times> Event list" where
  "executeZip S L w proj options =
     (case readCompressionConfig S w proj (formatOption options) of
        (config, tr0) \<Rightarrow>
          (let compressionFormat =
                 (case format config of Some f \<Rightarrow> f | None \<Rightarrow> formatOption options);
               outputFilename =
                 generateOutputFilename L (toISOString S w) proj compressionFormat
                   (case outputTemplate config of
                      Some t \<Rightarrow> if t \<noteq> [] then t else outputOption options
                    | None \<Rightarrow> outputOption options);
               outputPath = join L (path proj) outputFilename
           in if dryRun options
              then (\<lparr> success = True, message = DryRunZip (path proj) outputFilename,
                       error = None, outputFile = Some outputFilename \<rparr>, w, tr0)
              else
                (case collectFiles S L w (path proj)
                        (case exclude config of Some e \<Rightarrow> e | None \<Rightarrow> [])
                        (case files config of Some f \<Rightarrow> f | None \<Rightarrow> []) of
                   (filesToCompress, tr1) \<Rightarrow>
                     if filesToCompress = []
                     then (failure (NothingToCompress (path proj)) None, w, tr0 @ tr1)
                     else
                       (let w1 = createWriteStream S w outputPath
                        in case addEntries S L w1 (path proj) filesToCompress of
                             (Inl err, tr2) \<Rightarrow>
                               (failure (ZipFailed (path proj)) (Some err), w1,
                                tr0 @ tr1 @ [CreateWriteStream outputPath] @ tr2)
                           | (Inr entries, tr2) \<Rightarrow>
                               (case finalize S w1 outputPath compressionFormat entries of
                                  Inl err \<Rightarrow>
                                    (failure (ZipFailed (path proj)) (Some err), w1,
                                     tr0 @ tr1 @ [CreateWriteStream outputPath] @ tr2
                                       @ [Finalize outputPath])
                                | Inr w2 \<Rightarrow>
                                    (\<lparr> success = True,
                                        message = ZipSucceeded (path proj) outputFilename,
                                        error = None, outputFile = Some outputFilename \<rparr>,
                                     w2,
                                     tr0 @ tr1 @ [CreateWriteStream outputPath] @ tr2
                                       @ [Finalize outputPath]))))))"

subsection \<open>Clean\<close>

definition filesToClean :: "string list" where
  "filesToClean =
     [''test-dist'', ''*.log'', ''bin'', ''dist'', ''node_modules'', ''package-lock.json'',
      ''pnpm-lock.yaml'', ''bun.lockb'', ''obj'', ''release'', ''build'', ''out'', ''.turbo'',
      ''.expo'']"

text \<open>\<^verbatim>\<open>rm(filePath, { recursive, force })\<close>: with \<^verbatim>\<open>force\<close>, a path that does not exist is
  not an error.  The status says what happened; \<open>Failed\<close> carries the message of the
  error the call rejects with.\<close>

definition rm :: "'w System \<Rightarrow> 'w \<Rightarrow> string \<Rightarrow> bool \<Rightarrow> bool \<Rightarrow> RmStatus \<times> 'w" where
  "rm S w p recursive force =
     (case remove S w p recursive of
        Removed w' \<Rightarrow> (Deleted, w')
      | NotFound \<Rightarrow> if force then (Absent, w) else (Failed ''ENOENT'', w)
      | RemoveError e \<Rightarrow> (Failed e, w))"

text \<open>The inner loop of \<^verbatim>\<open>executeClean\<close> over the matches of one pattern; \<open>Inl\<close> is the
  result of the early \<^verbatim>\<open>return\<close>, \<open>Inr\<close> the counter \<^verbatim>\<open>totalCleaned\<close>.\<close>

fun cleanMatched ::
  "'w System \<Rightarrow> pathlib \<Rightarrow> string \<Rightarrow> bool \<Rightarrow> 'w \<Rightarrow> nat \<Rightarrow> string list
     \<Rightarrow> (OpResult + nat) \<times> 'w \<times> Event list" where
  "cleanMatched S L dir dry w totalCleaned [] = (Inr totalCleaned, w, [])"
| "cleanMatched S L dir dry w totalCleaned (f # matchedFiles) =
     (let filePath = join L dir f
      in if dry
         then (case cleanMatched S L dir dry w totalCleaned matchedFiles of
                 (r, w', tr) \<Rightarrow> (r, w', Console (DryRunDelete filePath) # tr))
         else
           (case rm S w filePath True True of
              (Failed e, w1) \<Rightarrow>
                (Inl (failure (DeleteFailed f) (Some e)), w1, [Rm filePath (Failed e)])
            | (status, w1) \<Rightarrow>
                (case cleanMatched S L dir dry w1 (totalCleaned + 1) matchedFiles of
                   (r, w', tr) \<Rightarrow> (r, w', Rm filePath status # tr))))"

text \<open>The outer loop over the patterns; a \<^verbatim>\<open>glob\<close> that throws reaches the outer \<^verbatim>\<open>catch\<close>.\<close>

fun cleanPatterns ::
  "'w System \<Rightarrow> pathlib \<Rightarrow> string \<Rightarrow> bool \<Rightarrow> 'w \<Rightarrow> nat \<Rightarrow> string list
     \<Rightarrow> (OpResult + nat) \<times> 'w \<times> Event list" where
  "cleanPatterns S L dir dry w totalCleaned [] = (Inr totalCleaned, w, [])"
| "cleanPatterns S L dir dry w totalCleaned (pattern # rest) =
     (case glob S w pattern dir of
        Inl err \<Rightarrow> (Inl (failure (CleanFailed dir) (Some err)), w, [Glob pattern dir])
      | Inr matchedFiles \<Rightarrow>
          (case cleanMatched S L dir dry w totalCleaned matchedFiles of
             (Inl r, w1, tr) \<Rightarrow> (Inl r, w1, Glob pattern dir # tr)
           | (Inr n, w1, tr) \<Rightarrow>
               (case cleanPatterns S L dir dry w1 n rest of
                  (r, w2, tr2) \<Rightarrow> (r, w2, Glob pattern dir # tr @ tr2))))"

definition executeClean ::
  "'w System \<Rightarrow> pathlib \<Rightarrow> 'w \<Rightarrow> Project \<Rightarrow> bool \<Rightarrow> bool \<Rightarrow> OpResult \<times> 'w \<times> Event list" where
  "executeClean S L w proj dry v =
     (case cleanPatterns S L (path proj) dry w 0 filesToClean of
        (Inl r, w', tr) \<Rightarrow> (r, w', tr)
      | (Inr totalCleaned, w', tr) \<Rightarrow> (ok (CleanSucceeded (path proj) totalCleaned) None, w', tr))"

subsection \<open>The four strategies\<close>



text \<open>The parts of what a strategy returns.\<close>

definition resultOf :: "OpResult \<times> 'w \<times> Event list \<Rightarrow> OpResult" where
  "resultOf r = fst r"

definition worldOf :: "OpResult \<times> 'w \<times> Event list \<Rightarrow> 'w" where
  "worldOf r = fst (snd r)"

definition traceOf :: "OpResult \<times> 'w \<times> Event list \<Rightarrow> Event list" where
  "traceOf r = snd (snd r)"

text \<open>The include and exclude lists \<^verbatim>\<open>executeZip\<close> takes from a configuration
  (\<^verbatim>\<open>config.files || []\<close>, \<^verbatim>\<open>config.exclude || []\<close>), and the test of its first loop: the
  entry exists as a directory or a regular file and is not excluded.\<close>

definition includeList :: "CompressionConfig \<Rightarrow> string list" where
  "includeList config = (case files config of Some f \<Rightarrow> f | None \<Rightarrow> [])"

definition excludeList :: "CompressionConfig \<Rightarrow> string list" where
  "excludeList config = (case exclude config of Some e \<Rightarrow> e | None \<Rightarrow> [])"

definition survives :: "'w System \<Rightarrow> pathlib \<Rightarrow> 'w \<Rightarrow> string \<Rightarrow> string list \<Rightarrow> string \<Rightarrow> bool" where
  "survives S L w dir excludePatterns f \<longleftrightarrow>
     (case stat S w (join L dir f) of
        Inl err \<Rightarrow> False
      | Inr k \<Rightarrow> (k = IsDirectory \<or> k = IsFile) \<and> \<not> shouldExclude L (join L dir f) excludePatterns)"

text \<open>Reading a trace of \<^verbatim>\<open>executeClean\<close>: the removals, the removals that failed; a
  trace in which every failure comes from a removal the system refused; and a trace that
  ends at the first failed removal, with the result returned there.\<close>

fun isRm :: "Event \<Rightarrow> bool" where
  "isRm (Rm q st) = True"
| "isRm ev = False"

fun isFailedRm :: "Event \<Rightarrow> bool" where
  "isFailedRm (Rm q (Failed e)) = True"
| "isFailedRm ev = False"

definition genuine :: "'w System \<Rightarrow> Event list \<Rightarrow> bool" where
  "genuine S tr \<longleftrightarrow>
     (\<forall>q e. Rm q (Failed e) \<in> set tr \<longrightarrow> (\<exists>w0. remove S w0 q True = RemoveError e))"

definition stoppedAt :: "pathlib \<Rightarrow> string \<Rightarrow> Event list \<Rightarrow> OpResult \<Rightarrow> bool" where
  "stoppedAt L dir tr res \<longleftrightarrow>
     (\<exists>pre f e. tr = pre @ [Rm (join L dir f) (Failed e)]
        \<and> (\<forall>ev \<in> set pre. \<not> isFailedRm ev)
        \<and> res = failure (DeleteFailed f) (Some e))"



section \<open>A small world for concrete runs\<close>

text \<open>
  One instance of the system, on which concrete runs are evaluated: a list of regular files
  and of directories, the parsed manifests, the paths whose removal is refused, the paths a
  \<^verbatim>\<open>glob\<close> still reports though they are gone by the time they are removed, whether
  \<^verbatim>\<open>pnpm\<close> is installed, the clock, and the archives written so far with their members.  An
  archived directory contributes every file below it.
\<close>

record World =
  regularFiles :: "string list"
  directories :: "string list"
  manifests :: "(string \<times> PackageJson) list"
  undeletable :: "string list"
  vanished :: "string list"
  pnpmInstalled :: bool
  clock :: string
  archives :: "(string \<times> string list) list"

definition childOf :: "string \<Rightarrow> string \<Rightarrow> string option" where
  "childOf dir p =
     (if startsWith p (dir @ ''/'') \<and> CHR ''/'' \<notin> set (drop (length dir + 1) p)
      then Some (drop (length dir + 1) p) else None)"

definition globMatches :: "string \<Rightarrow> string \<Rightarrow> bool" where
  "globMatches n pattern \<longleftrightarrow>
     (if startsWith pattern ''*'' then endsWith n (tl pattern) \<and> \<not> startsWith n ''.''
      else n = pattern)"

definition simGlob :: "World \<Rightarrow> string \<Rightarrow> string \<Rightarrow> string + string list" where
  "simGlob w pattern dir =
     Inr (filter (\<lambda>n. globMatches n pattern)
            (List.map_filter (childOf dir) (directories w @ regularFiles w @ vanished w)))"

definition below :: "string \<Rightarrow> string \<Rightarrow> bool" where
  "below p q \<longleftrightarrow> q = p \<or> startsWith q (p @ ''/'')"

definition simRemove :: "World \<Rightarrow> string \<Rightarrow> bool \<Rightarrow> World RemoveOutcome" where
  "simRemove w p recursive =
     (if p \<in> set (undeletable w) then RemoveError ''EPERM''
      else if p \<in> set (regularFiles w) \<or> (p \<in> set (directories w) \<and> recursive)
        then Removed (w\<lparr> regularFiles := filter (\<lambda>q. \<not> below p q) (regularFiles w),
                          directories := filter (\<lambda>q. \<not> below p q) (directories w) \<rparr>)
      else if p \<in> set (directories w) then RemoveError ''EISDIR''
      else NotFound)"

definition simStat :: "World \<Rightarrow> string \<Rightarrow> string + StatKind" where
  "simStat w p =
     (if p \<in> set (directories w) then Inr IsDirectory
      else if p \<in> set (regularFiles w) then Inr IsFile
      else Inl ''ENOENT'')"

definition simExec :: "World \<Rightarrow> string \<Rightarrow> string option \<Rightarrow> ExecOutcome \<times> World" where
  "simExec w command dir =
     (if command = ''pnpm --version'' \<and> \<not> pnpmInstalled w
      then (ExecError ''pnpm: not found'' ''Command failed'', w)
      else (ExecOk [] [], w))"

definition membersOf :: "World \<Rightarrow> ArchiveEntry \<Rightarrow> string list" where
  "membersOf w entry =
     (case entry of
        DirectoryEntry src dest \<Rightarrow>
          map (\<lambda>f. dest @ drop (length src) f)
            (filter (\<lambda>f. startsWith f (src @ ''/'')) (regularFiles w))
      | FileEntry src n \<Rightarrow> [n])"

definition simFinalize ::
  "World \<Rightarrow> string \<Rightarrow> CompressionFormat \<Rightarrow> ArchiveEntry list \<Rightarrow> string + World" where
  "simFinalize w outputPath fmt entries =
     Inr (w\<lparr> archives := (outputPath, concat (map (membersOf w) entries)) # archives w \<rparr>)"

definition sim :: "World System" where
  "sim =
     \<lparr> readPackageJson =
         (\<lambda>w f. case map_of (manifests w) f of Some pj \<Rightarrow> Inr pj | None \<Rightarrow> Inl ''ENOENT''),
       exec = simExec,
       glob = simGlob,
       remove = simRemove,
       stat = simStat,
       toISOString = clock,
       createWriteStream = (\<lambda>w p. w\<lparr> regularFiles := p # regularFiles w \<rparr>),
       finalize = simFinalize \<rparr>"

text \<open>A node project at \<^verbatim>\<open>/p\<close> with a build script, whose \<^verbatim>\<open>dist\<close> holds a script and a
  log, and a dotnet project at \<^verbatim>\<open>/q\<close>.\<close>

definition nodeProject :: Project where
  "nodeProject = \<lparr> path = ''/p'', ptype = Node, manifestFile = ''/p/package.json'' \<rparr>"

definition dotnetProject :: Project where
  "dotnetProject = \<lparr> path = ''/q'', ptype = Dotnet, manifestFile = ''/q/app.csproj'' \<rparr>"

definition world :: World where
  "world =
     \<lparr> regularFiles = [''/p/package.json'', ''/p/dist/app.js'', ''/p/dist/debug.log'',
                        ''/q/app.csproj''],
       directories = [''/p'', ''/p/dist'', ''/q''],
       manifests = [(''/p/package.json'',
                     \<lparr> scripts = Some [(''build'', ''tsc'')], zipConfig = None \<rparr>)],
       undeletable = [],
       vanished = [],
       pnpmInstalled = True,
       clock = ''2024-05-06T07:08:09.123Z'',
       archives = [] \<rparr>"

definition options :: Options where
  "options =
     \<lparr> dryRun = False, verbose = False, configuration = ''Release'', formatOption = Zip,
       outputOption = ''{project}-{timestamp}.{format}'' \<rparr>"

text \<open>The parts of what \<open>scanDirectories\<close> returns.\<close>

definition projectsOf :: "Project list \<times> string set \<times> string list \<Rightarrow> Project list" where
  "projectsOf r = fst r"

definition visitedOf :: "Project list \<times> string set \<times> string list \<Rightarrow> string set" where
  "visitedOf r = fst (snd r)"

definition readsOf :: "Project list \<times> string set \<times> string list \<Rightarrow> string list" where
  "readsOf r = snd (snd r)"

text \<open>Two file systems under the working directory \<^verbatim>\<open>/w\<close>: in the first, \<^verbatim>\<open>link\<close> is a
  symbolic link to the project directory \<^verbatim>\<open>real\<close>; in the second, the project lies one
  level below the root \<^verbatim>\<open>app\<close>.\<close>

definition aliasFs :: filesystem where
  "aliasFs =
     \<lparr> cwd = ''/w'',
       paths = [(''/w/real'', 1), (''/w/link'', 1)],
       listing = [(1, [\<lparr> name = ''package.json'', isDirectory = False \<rparr>])] \<rparr>"

definition nestedFs :: filesystem where
  "nestedFs =
     \<lparr> cwd = ''/w'',
       paths = [(''/w/app'', 1), (''/w/app/sub'', 2)],
       listing = [(1, [\<lparr> name = ''sub'', isDirectory = True \<rparr>]),
                  (2, [\<lparr> name = ''package.json'', isDirectory = False \<rparr>])] \<rparr>"

text \<open>Two directory listings: one with both manifests, one with several dotnet manifests
  behind a dot-file that has no extension.\<close>

definition mixedEntries :: "Dirent list" where
  "mixedEntries =
     [\<lparr> name = ''src'', isDirectory = True \<rparr>, \<lparr> name = ''app.csproj'', isDirectory = False \<rparr>,
      \<lparr> name = ''package.json'', isDirectory = False \<rparr>]"

definition dotnetEntries :: "Dirent list" where
  "dotnetEntries =
     [\<lparr> name = ''README.md'', isDirectory = False \<rparr>, \<lparr> name = ''.csproj'', isDirectory = False \<rparr>,
      \<lparr> name = ''lib.fsproj'', isDirectory = False \<rparr>, \<lparr> name = ''app.csproj'', isDirectory = False \<rparr>]"

text \<open>A run of two workers over the two projects, in which the second project completes
  first.\<close>

definition runA :: OpResult where
  "runA = ok (ExecSucceeded ''pnpm run build'' ''/p'') None"

definition runB :: OpResult where
  "runB = failure (ExecFailed ''dotnet build'' ''/q'') (Some ''MSB1009'')"

definition finished :: Dispatch where
  "finished =
     \<lparr> projects = [],
       results = [processResult dotnetProject runB, processResult nodeProject runA],
       processed = 2,
       workers = [Returned, Returned] \<rparr>"

text \<open>The node project once more, with no build script and none of the output directories.\<close>

definition bareWorld :: World where
  "bareWorld =
     \<lparr> regularFiles = [''/p/package.json'', ''/p/src/index.ts''],
       directories = [''/p'', ''/p/src''],
       manifests = [(''/p/package.json'',
                     \<lparr> scripts = Some [(''test'', ''vitest'')], zipConfig = None \<rparr>)],
       undeletable = [],
       vanished = [],
       pnpmInstalled = True,
       clock = ''2024-05-06T07:08:09.123Z'',
       archives = [] \<rparr>"

text \<open>The first project again, with \<^verbatim>\<open>dist\<close> locked, and with a \<^verbatim>\<open>bin\<close> that is gone by the
  time it is removed.\<close>

definition lockedWorld :: World where
  "lockedWorld = world\<lparr> undeletable := [''/p/dist''], vanished := [''/p/bin''] \<rparr>"

definition vanishedWorld :: World where
  "vanishedWorld = world\<lparr> vanished := [''/p/bin''] \<rparr>"



section \<open>The worker loop: exactly one result per project\<close>

lemma inFlight_shift:
  "i < length ws \<Longrightarrow> ws ! i = AtLoopHead \<Longrightarrow>
     mset (inFlight (ws[i := Awaiting p])) = add_mset p (mset (inFlight ws))"
proof (induction ws arbitrary: i)
  case Nil
  then show ?case by simp
next
  case (Cons w ws)
  then show ?case by (cases i; cases w) auto
qed

lemma inFlight_leave:
  "i < length ws \<Longrightarrow> ws ! i = AtLoopHead \<Longrightarrow> inFlight (ws[i := Returned]) = inFlight ws"
proof (induction ws arbitrary: i)
  case Nil
  then show ?case by simp
next
  case (Cons w ws)
  then show ?case by (cases i; cases w) auto
qed

lemma inFlight_push:
  "i < length ws \<Longrightarrow> ws ! i = Awaiting p \<Longrightarrow>
     add_mset p (mset (inFlight (ws[i := AtLoopHead]))) = mset (inFlight ws)"
proof (induction ws arbitrary: i)
  case Nil
  then show ?case by simp
next
  case (Cons w ws)
  then show ?case by (cases i; cases w) auto
qed

lemma inFlight_allReturned: "list_all (\<lambda>w. w = Returned) ws \<Longrightarrow> inFlight ws = []"
  by (induction ws) auto

lemma project_processResult: "project (processResult p r) = p"
  by (simp add: processResult_def)

lemma invariant_start: "dispatchInvariant concurrency ps (startWorkers concurrency ps)"
proof -
  have "inFlight (replicate n AtLoopHead) = []" for n by (induction n) auto
  then show ?thesis by (simp add: dispatchInvariant_def startWorkers_def)
qed

lemma invariant_step:
  assumes "processQueue s s'" and "dispatchInvariant concurrency ps s"
  shows "dispatchInvariant concurrency ps s'"
  using assms
proof (induction rule: processQueue.induct)
  case (shift i s p rest)
  have "Returned \<notin> set (workers s)"
    using shift by (auto simp: dispatchInvariant_def)
  then have "Returned \<notin> set ((workers s)[i := Awaiting p])"
    using set_update_subset_insert[of "workers s" i "Awaiting p"] by auto
  with shift show ?case
    by (simp add: dispatchInvariant_def inFlight_shift)
next
  case (leave i s)
  then show ?case by (simp add: dispatchInvariant_def inFlight_leave)
next
  case (push i s p r)
  have "Returned \<in> set ((workers s)[i := AtLoopHead]) \<Longrightarrow> Returned \<in> set (workers s)"
    using set_update_subset_insert[of "workers s" i AtLoopHead] by auto
  moreover have "mset (inFlight (workers s)) = add_mset p (mset (inFlight ((workers s)[i := AtLoopHead])))"
    using inFlight_push[of i "workers s" p] push by simp
  ultimately show ?case
    using push by (auto simp: dispatchInvariant_def project_processResult)
qed

lemma invariant_reachable:
  "processQueue\<^sup>*\<^sup>* (startWorkers concurrency ps) s \<Longrightarrow> dispatchInvariant concurrency ps s"
  by (induction rule: rtranclp_induct) (auto intro: invariant_start invariant_step)

lemma processQueue_progress:
  assumes "\<not> allReturned s"
  shows "\<exists>s'. processQueue s s'"
proof -
  from assms obtain i where i: "i < length (workers s)" "workers s ! i \<noteq> Returned"
    by (auto simp: allReturned_def list_all_length)
  show ?thesis
  proof (cases "workers s ! i")
    case AtLoopHead
    show ?thesis
    proof (cases "projects s")
      case Nil
      with i AtLoopHead show ?thesis by (blast intro: processQueue.leave)
    next
      case (Cons p rest)
      with i AtLoopHead show ?thesis by (blast intro: processQueue.shift)
    qed
  next
    case (Awaiting p)
    with i show ?thesis by (blast intro: processQueue.push)
  next
    case Returned
    with i show ?thesis by simp
  qed
qed

lemma sum_list_update_weight:
  "i < length ws \<Longrightarrow>
     sum_list (map workerWeight (ws[i := w])) + workerWeight (ws ! i)
       = sum_list (map workerWeight ws) + workerWeight w"
proof (induction ws arbitrary: i)
  case Nil
  then show ?case by simp
next
  case (Cons a ws)
  then show ?case by (cases i) (auto simp: add.assoc add.left_commute)
qed

lemma processQueue_decreases:
  assumes "processQueue s s'"
  shows "remainingWork s' < remainingWork s"
  using assms
proof (induction rule: processQueue.induct)
  case (shift i s p rest)
  with sum_list_update_weight[of i "workers s" "Awaiting p"] show ?case
    by (simp add: remainingWork_def)
next
  case (leave i s)
  with sum_list_update_weight[of i "workers s" Returned] show ?case
    by (simp add: remainingWork_def)
next
  case (push i s p r)
  with sum_list_update_weight[of i "workers s" AtLoopHead] show ?case
    by (simp add: remainingWork_def)
qed

lemma processQueue_terminates: "wfp (\<lambda>s' s. processQueue s s')"
  by (rule wfp_if_convertible_to_nat[of _ remainingWork]) (rule processQueue_decreases)

lemma results_when_all_returned:
  assumes "0 < concurrency"
    and "processQueue\<^sup>*\<^sup>* (startWorkers concurrency ps) s"
    and "allReturned s"
  shows "length (results s) = length ps
    \<and> mset (map project (results s)) = mset ps
    \<and> set (map (\<lambda>r. path (project r)) (results s)) = set (map path ps)
    \<and> processed s = length ps
    \<and> projects s = []"
proof -
  from assms(2) have inv: "dispatchInvariant concurrency ps s" by (rule invariant_reachable)
  from assms(3) have fl: "inFlight (workers s) = []"
    by (simp add: allReturned_def inFlight_allReturned)
  from inv assms(1) have "workers s \<noteq> []" by (auto simp: dispatchInvariant_def)
  with assms(3) have "Returned \<in> set (workers s)"
    by (cases "workers s") (auto simp: allReturned_def)
  with inv have q: "projects s = []" by (simp add: dispatchInvariant_def)
  with inv fl have m: "mset (map project (results s)) = mset ps"
    by (simp add: dispatchInvariant_def)
  from m have l: "length (results s) = length ps"
    by (metis length_map size_mset)
  from m have "set (map project (results s)) = set ps"
    by (rule mset_eq_setD)
  then have "path ` set (map project (results s)) = path ` set ps" by simp
  then have p: "set (map (\<lambda>r. path (project r)) (results s)) = set (map path ps)"
    by (simp add: image_image)
  from inv q have "processed s = length ps" by (simp add: dispatchInvariant_def)
  with l m p q show ?thesis by simp
qed

lemma processQueue_completes: "\<exists>s'. processQueue\<^sup>*\<^sup>* s s' \<and> allReturned s'"
proof (induction "remainingWork s" arbitrary: s rule: less_induct)
  case less
  show ?case
  proof (cases "allReturned s")
    case True
    then show ?thesis by blast
  next
    case False
    then obtain t where t: "processQueue s t" using processQueue_progress by blast
    then have "remainingWork t < remainingWork s" by (rule processQueue_decreases)
    from less[OF this] obtain s' where "processQueue\<^sup>*\<^sup>* t s'" "allReturned s'" by blast
    with t show ?thesis by (blast intro: converse_rtranclp_into_rtranclp)
  qed
qed

text \<open>
  Claim C1.  With at least one worker, and every operation completing, every interleaving
  of the workers can run to the end, and whenever all workers have returned the results
  hold exactly one \<^verbatim>\<open>ProcessResult\<close> per submitted project: as many results as projects,
  the same projects with the same multiplicities (none twice, none dropped), the same set
  of project paths, the counter \<^verbatim>\<open>processed\<close> at the number of projects and the queue
  empty.  The concurrency is the number of workers \<^verbatim>\<open>Array.from\<close> starts.
\<close>

theorem processQueue_exactly_once:
  assumes "0 < concurrency"
  shows "(\<exists>s. processQueue\<^sup>*\<^sup>* (startWorkers concurrency ps) s \<and> allReturned s)
    \<and> (\<forall>s. processQueue\<^sup>*\<^sup>* (startWorkers concurrency ps) s \<and> allReturned s \<longrightarrow>
          length (results s) = length ps
          \<and> mset (map project (results s)) = mset ps
          \<and> set (map (\<lambda>r. path (project r)) (results s)) = set (map path ps)
          \<and> processed s = length ps
          \<and> projects s = [])"
  using processQueue_completes[of "startWorkers concurrency ps"]
    results_when_all_returned[OF assms]
  by blast

lemma run_reaches_finished:
  "processQueue\<^sup>*\<^sup>* (startWorkers 2 [nodeProject, dotnetProject]) finished"
proof -
  define s1 where "s1 = \<lparr> projects = [dotnetProject], results = [], processed = 1,
    workers = [Awaiting nodeProject, AtLoopHead] \<rparr>"
  define s2 where "s2 = \<lparr> projects = [], results = [], processed = 2,
    workers = [Awaiting nodeProject, Awaiting dotnetProject] \<rparr>"
  define s3 where "s3 = \<lparr> projects = [], results = [processResult dotnetProject runB], processed = 2,
    workers = [Awaiting nodeProject, AtLoopHead] \<rparr>"
  define s4 where "s4 = \<lparr> projects = [], results = [processResult dotnetProject runB], processed = 2,
    workers = [Awaiting nodeProject, Returned] \<rparr>"
  define s5 where "s5 = \<lparr> projects = [],
    results = [processResult dotnetProject runB, processResult nodeProject runA], processed = 2,
    workers = [AtLoopHead, Returned] \<rparr>"
  have 1: "processQueue (startWorkers 2 [nodeProject, dotnetProject]) s1"
    using processQueue.shift[of 0 "startWorkers 2 [nodeProject, dotnetProject]" nodeProject "[dotnetProject]"]
    by (simp add: startWorkers_def s1_def numeral_2_eq_2)
  have 2: "processQueue s1 s2"
    using processQueue.shift[of 1 s1 dotnetProject "[]"] by (simp add: s1_def s2_def numeral_2_eq_2)
  have 3: "processQueue s2 s3"
    using processQueue.push[of 1 s2 dotnetProject runB] by (simp add: s2_def s3_def)
  have 4: "processQueue s3 s4"
    using processQueue.leave[of 1 s3] by (simp add: s3_def s4_def)
  have 5: "processQueue s4 s5"
    using processQueue.push[of 0 s4 nodeProject runA] by (simp add: s4_def s5_def)
  have 6: "processQueue s5 finished"
    using processQueue.leave[of 0 s5] by (simp add: s5_def finished_def)
  from 1 2 3 4 5 6 show ?thesis by (meson rtranclp.rtrancl_into_rtrancl rtranclp.rtrancl_refl)
qed

theorem processQueue_exactly_once_witness:
  "(0::nat) < 2
   \<and> processQueue\<^sup>*\<^sup>* (startWorkers 2 [nodeProject, dotnetProject]) finished
   \<and> allReturned finished
   \<and> length (results finished) = 2
   \<and> mset (map project (results finished)) = mset [nodeProject, dotnetProject]
   \<and> set (map (\<lambda>r. path (project r)) (results finished)) = {''/p'', ''/q''}
   \<and> processed finished = 2"
proof -
  have a: "allReturned finished" by (simp add: allReturned_def finished_def)
  have n: "(0::nat) < 2" by simp
  from processQueue_exactly_once[OF n, of "[nodeProject, dotnetProject]"] a run_reaches_finished
  have "length (results finished) = length [nodeProject, dotnetProject]
          \<and> mset (map project (results finished)) = mset [nodeProject, dotnetProject]
          \<and> set (map (\<lambda>r. path (project r)) (results finished)) = set (map path [nodeProject, dotnetProject])
          \<and> processed finished = length [nodeProject, dotnetProject]"
    by blast
  with a run_reaches_finished
  show ?thesis by (simp add: nodeProject_def dotnetProject_def insert_commute)
qed

section \<open>Project detection: the priority rule\<close>

lemma find_first_match:
  "\<forall>x \<in> set pre. \<not> P x \<Longrightarrow> P e \<Longrightarrow> find P (pre @ e # post) = Some e"
  by (induction pre) auto

text \<open>
  Claim C2.  A directory that lists an entry named \<^verbatim>\<open>package.json\<close> is a node project whose
  manifest is that file, whatever else it lists; otherwise, if some entry has the extension
  \<^verbatim>\<open>.csproj\<close>, \<^verbatim>\<open>.vbproj\<close> or \<^verbatim>\<open>.fsproj\<close>, it is a dotnet project whose manifest is the
  first such entry of the listing; otherwise it is no project.
\<close>

theorem detectProject_priority:
  "((\<exists>e \<in> set entries. name e = ''package.json'') \<longrightarrow>
      detectProject L dir entries =
        Some \<lparr> path = dir, ptype = Node, manifestFile = join L dir ''package.json'' \<rparr>)
   \<and> ((\<forall>e \<in> set entries. name e \<noteq> ''package.json'')
        \<and> entries = pre @ e # post
        \<and> extname L (name e) \<in> {''.csproj'', ''.vbproj'', ''.fsproj''}
        \<and> (\<forall>x \<in> set pre. extname L (name x) \<notin> {''.csproj'', ''.vbproj'', ''.fsproj''}) \<longrightarrow>
      detectProject L dir entries =
        Some \<lparr> path = dir, ptype = Dotnet, manifestFile = join L dir (name e) \<rparr>)
   \<and> ((\<forall>e \<in> set entries. name e \<noteq> ''package.json''
                \<and> extname L (name e) \<notin> {''.csproj'', ''.vbproj'', ''.fsproj''}) \<longrightarrow>
      detectProject L dir entries = None)"
proof (intro conjI impI)
  assume "\<exists>e \<in> set entries. name e = ''package.json''"
  then show "detectProject L dir entries =
        Some \<lparr> path = dir, ptype = Node, manifestFile = join L dir ''package.json'' \<rparr>"
    by (simp add: detectProject_def list_ex_iff)
next
  assume a: "(\<forall>e \<in> set entries. name e \<noteq> ''package.json'')
        \<and> entries = pre @ e # post
        \<and> extname L (name e) \<in> {''.csproj'', ''.vbproj'', ''.fsproj''}
        \<and> (\<forall>x \<in> set pre. extname L (name x) \<notin> {''.csproj'', ''.vbproj'', ''.fsproj''})"
  then have nopkg: "\<not> list_ex (\<lambda>entry. name entry = ''package.json'') entries"
    by (simp add: list_ex_iff)
  from a have "find (\<lambda>entry. extname L (name entry) \<in> set dotnetExtensions) (pre @ e # post) = Some e"
    by (intro find_first_match) (simp_all add: dotnetExtensions_def)
  with a nopkg show "detectProject L dir entries =
        Some \<lparr> path = dir, ptype = Dotnet, manifestFile = join L dir (name e) \<rparr>"
    by (simp add: detectProject_def)
next
  assume a: "\<forall>e \<in> set entries. name e \<noteq> ''package.json''
                \<and> extname L (name e) \<notin> {''.csproj'', ''.vbproj'', ''.fsproj''}"
  then have "find (\<lambda>entry. extname L (name entry) \<in> set dotnetExtensions) entries = None"
    by (simp add: find_None_iff dotnetExtensions_def)
  with a show "detectProject L dir entries = None"
    by (simp add: detectProject_def list_ex_iff)
qed

theorem detectProject_priority_witness:
  "detectProject posix ''/w/a'' mixedEntries =
     Some \<lparr> path = ''/w/a'', ptype = Node, manifestFile = ''/w/a/package.json'' \<rparr>
   \<and> detectProject posix ''/w/b'' dotnetEntries =
     Some \<lparr> path = ''/w/b'', ptype = Dotnet, manifestFile = ''/w/b/lib.fsproj'' \<rparr>
   \<and> detectProject posix ''/w/c'' [\<lparr> name = ''notes.txt'', isDirectory = False \<rparr>] = None"
proof -
  have ext: "posix_extname ''README.md'' = ''.md''" "posix_extname ''.csproj'' = []"
    "posix_extname ''lib.fsproj'' = ''.fsproj''" "posix_extname ''notes.txt'' = ''.txt''"
    by (simp_all add: posix_extname_def posix_basename_def Let_def)
  have j: "posix_join ''/w/a'' ''package.json'' = ''/w/a/package.json''"
    "posix_join ''/w/b'' ''lib.fsproj'' = ''/w/b/lib.fsproj''"
    by (simp_all add: posix_join_def posix_normalize_def Let_def)
  have 1: "detectProject posix ''/w/a'' mixedEntries =
     Some \<lparr> path = ''/w/a'', ptype = Node, manifestFile = ''/w/a/package.json'' \<rparr>"
    using detectProject_priority[where entries = mixedEntries and L = posix and dir = "''/w/a''"]
    by (simp add: mixedEntries_def posix_def j)
  have 2: "detectProject posix ''/w/b'' dotnetEntries =
     Some \<lparr> path = ''/w/b'', ptype = Dotnet, manifestFile = ''/w/b/lib.fsproj'' \<rparr>"
    using detectProject_priority[where entries = dotnetEntries
        and pre = "[\<lparr> name = ''README.md'', isDirectory = False \<rparr>, \<lparr> name = ''.csproj'', isDirectory = False \<rparr>]"
        and e = "\<lparr> name = ''lib.fsproj'', isDirectory = False \<rparr>"
        and post = "[\<lparr> name = ''app.csproj'', isDirectory = False \<rparr>]" and L = posix and dir = "''/w/b''"]
    by (simp add: dotnetEntries_def posix_def j ext)
  have 3: "detectProject posix ''/w/c'' [\<lparr> name = ''notes.txt'', isDirectory = False \<rparr>] = None"
    using detectProject_priority[where entries = "[\<lparr> name = ''notes.txt'', isDirectory = False \<rparr>]" and L = posix
        and dir = "''/w/c''"]
    by (simp add: posix_def ext)
  from 1 2 3 show ?thesis by simp
qed

section \<open>Scanning: what the visited set guarantees\<close>

lemma scan_reads:
  "scanDirectories L fs dirs visited = (ps, v, reads) \<Longrightarrow>
     distinct reads \<and> set reads \<inter> visited = {} \<and> v = visited \<union> set reads"
proof (induction L fs dirs visited arbitrary: ps v reads rule: scanDirectories.induct)
  case (1 L fs visited)
  then show ?case by simp
next
  case (2 L fs dir dirs visited)
  define fp where "fp = fullPath L (cwd fs) dir"
  show ?case
  proof (cases "fp \<in> visited")
    case True
    with "2.prems" have "scanDirectories L fs dirs visited = (ps, v, reads)"
      by (simp add: fp_def)
    from "2.IH"(1)[OF fp_def True this] show ?thesis .
  next
    case nv: False
    show ?thesis
    proof (cases "readdir fs fp")
      case None
      obtain rest v' r' where s: "scanDirectories L fs dirs (insert fp visited) = (rest, v', r')"
        by (cases "scanDirectories L fs dirs (insert fp visited)") auto
      from "2.IH"(2)[OF fp_def nv None s]
      have ih: "distinct r'" "set r' \<inter> insert fp visited = {}" "v' = insert fp visited \<union> set r'"
        by auto
      from "2.prems" nv None s have "v = v'" "reads = fp # r'"
        by (simp_all add: fp_def[symmetric])
      with ih nv show ?thesis by auto
    next
      case (Some entries)
      obtain sub v1 r1 where s1:
        "scanDirectories L fs (subdirectoriesOf L fp entries) (insert fp visited) = (sub, v1, r1)"
        by (cases "scanDirectories L fs (subdirectoriesOf L fp entries) (insert fp visited)") auto
      obtain rest v2 r2 where s2: "scanDirectories L fs dirs v1 = (rest, v2, r2)"
        by (cases "scanDirectories L fs dirs v1") auto
      from "2.IH"(3)[OF fp_def nv Some s1]
      have ih1: "distinct r1" "set r1 \<inter> insert fp visited = {}" "v1 = insert fp visited \<union> set r1"
        by auto
      from "2.IH"(4)[OF fp_def nv Some s1[symmetric] refl s2]
      have ih2: "distinct r2" "set r2 \<inter> v1 = {}" "v2 = v1 \<union> set r2"
        by auto
      from "2.prems" nv Some s1 s2 have "v = v2" "reads = fp # r1 @ r2"
        by (simp_all add: fp_def[symmetric])
      with ih1 ih2 nv show ?thesis by auto
    qed
  qed
qed

text \<open>
  Claim C3, as amended.  One \<^verbatim>\<open>visited\<close> set is threaded through the whole call tree, and
  \<^verbatim>\<open>readdir\<close> is called at most once on each resolved path string: the paths read are
  pairwise different, none of them was visited before the call, and the set the call
  leaves is the set it was given plus the paths it read.  This holds for any list of root
  arguments, also when two of them resolve to the same path string.
\<close>

theorem scanDirectories_reads_each_path_once:
  "distinct (readsOf (scanDirectories L fs dirs visited))
   \<and> set (readsOf (scanDirectories L fs dirs visited)) \<inter> visited = {}
   \<and> visitedOf (scanDirectories L fs dirs visited)
       = visited \<union> set (readsOf (scanDirectories L fs dirs visited))"
  using scan_reads[of L fs dirs visited]
  by (cases "scanDirectories L fs dirs visited") (simp add: readsOf_def visitedOf_def)

lemma aliasScan:
  "scanDirectories posix aliasFs [''real'', ''link''] {} =
     ([\<lparr> path = ''/w/real'', ptype = Node, manifestFile = ''/w/real/package.json'' \<rparr>,
       \<lparr> path = ''/w/link'', ptype = Node, manifestFile = ''/w/link/package.json'' \<rparr>],
      {''/w/real'', ''/w/link''}, [''/w/real'', ''/w/link''])"
  by (simp add: aliasFs_def fullPath_def posix_def posix_join_def posix_normalize_def Let_def
        readdir_def subdirectoriesOf_def detectProject_def asciiLetter_def insert_commute)

text \<open>
  Claim C3, as stated, fails: the set holds path strings, not directories.  With the roots
  \<^verbatim>\<open>real\<close> and \<^verbatim>\<open>link\<close>, where \<^verbatim>\<open>link\<close> is a symbolic link to \<^verbatim>\<open>real\<close>, the two resolved
  paths differ, both are read, and the one directory they denote is scanned twice (and its
  project reported twice).
\<close>

theorem scanDirectories_same_directory_twice:
  "\<not> distinct (map (directoryOf aliasFs) (readsOf (scanDirectories posix aliasFs [''real'', ''link''] {})))"
  unfolding aliasScan readsOf_def by (simp add: directoryOf_def aliasFs_def)

section \<open>Scanning: resolution of the root arguments\<close>

text \<open>
  Claim C8.  The test for an absolute path knows the two Windows forms only (a leading
  backslash, a drive letter).  Under the POSIX path library an absolute root such as
  \<^verbatim>\<open>/srv/app\<close> is not used as it is but joined onto the working directory.  The same test
  runs on the recursive call, whose arguments are already absolute: the subdirectory
  \<^verbatim>\<open>/w/app/sub\<close> is read as \<^verbatim>\<open>/w/w/app/sub\<close>, and the project in it is not found.
\<close>

theorem fullPath_posix_absolute_joined:
  "fullPath posix ''/home/dev'' ''/srv/app'' = ''/home/dev/srv/app''
   \<and> scanDirectories posix nestedFs [''app''] {}
       = ([], {''/w/app'', ''/w/w/app/sub''}, [''/w/app'', ''/w/w/app/sub''])"
  by (simp add: nestedFs_def fullPath_def posix_def posix_join_def posix_normalize_def Let_def
        readdir_def subdirectoriesOf_def detectProject_def asciiLetter_def insert_commute
        dotnetExtensions_def posix_extname_def posix_basename_def)

section \<open>Build: a node project without a build script\<close>

text \<open>
  Claim C7.  For a node project whose manifest can be read and declares no build script (no
  \<^verbatim>\<open>scripts\<close> object, no \<^verbatim>\<open>build\<close> key in it, or an empty one), \<^verbatim>\<open>executeBuild\<close> returns
  an unsuccessful result with the message that no build script is configured and no error
  text; it has read the manifest and nothing else, started no process, and left the world as
  it was.  This holds with and without the dry-run flag.
\<close>

theorem executeBuild_no_build_script:
  assumes "ptype proj = Node"
    and "readPackageJson S w (manifestFile proj) = Inr packageJson"
    and "scripts packageJson = None
         \<or> (\<exists>sc. scripts packageJson = Some sc \<and> map_of sc ''build'' \<in> {None, Some []})"
  shows "executeBuild S w proj opts =
           (\<lparr> success = False, message = NoBuildScript (path proj), error = None,
               outputFile = None \<rparr>,
            w, [ReadFile (manifestFile proj)])"
proof -
  from assms(3) have "\<not> hasBuildScript packageJson"
    by (auto simp: hasBuildScript_def)
  with assms(1,2) show ?thesis
    by (simp add: executeBuild_def failure_def)
qed

theorem executeBuild_no_build_script_witness:
  "executeBuild sim bareWorld nodeProject options =
     (\<lparr> success = False, message = NoBuildScript ''/p'', error = None, outputFile = None \<rparr>,
      bareWorld, [ReadFile ''/p/package.json''])"
proof -
  have 1: "ptype nodeProject = Node" by (simp add: nodeProject_def)
  have 2: "readPackageJson sim bareWorld (manifestFile nodeProject)
             = Inr \<lparr> scripts = Some [(''test'', ''vitest'')], zipConfig = None \<rparr>"
    by (simp add: sim_def bareWorld_def nodeProject_def)
  have 3: "scripts \<lparr> scripts = Some [(''test'', ''vitest'')], zipConfig = None \<rparr> = None
         \<or> (\<exists>sc. scripts \<lparr> scripts = Some [(''test'', ''vitest'')], zipConfig = None \<rparr> = Some sc
                \<and> map_of sc ''build'' \<in> {None, Some []})"
    by simp
  from executeBuild_no_build_script[OF 1 2 3, of options] show ?thesis
    by (simp add: nodeProject_def)
qed

section \<open>Clean: the first failed removal stops the run\<close>

lemma stoppedAt_append:
  assumes "\<forall>ev \<in> set tr0. \<not> isFailedRm ev" and "stoppedAt L dir tr res"
  shows "stoppedAt L dir (tr0 @ tr) res"
proof -
  from assms(2) obtain pre f e where p: "tr = pre @ [Rm (join L dir f) (Failed e)]"
    "\<forall>ev \<in> set pre. \<not> isFailedRm ev" "res = failure (DeleteFailed f) (Some e)"
    unfolding stoppedAt_def by blast
  have "tr0 @ tr = (tr0 @ pre) @ [Rm (join L dir f) (Failed e)]" using p(1) by simp
  moreover have "\<forall>ev \<in> set (tr0 @ pre). \<not> isFailedRm ev" using assms(1) p(2) by auto
  ultimately show ?thesis unfolding stoppedAt_def using p(3) by blast
qed

lemma stoppedAt_Cons:
  "\<not> isFailedRm ev \<Longrightarrow> stoppedAt L dir tr res \<Longrightarrow> stoppedAt L dir (ev # tr) res"
  using stoppedAt_append[of "[ev]" L dir tr res] by simp

lemma stoppedAt_single: "stoppedAt L dir [Rm (join L dir f) (Failed e)] (failure (DeleteFailed f) (Some e))"
  unfolding stoppedAt_def by (intro exI[of _ "[]"] exI[of _ f] exI[of _ e]) simp

lemma genuine_simps:
  "genuine S []"
  "genuine S (Glob p d # tr) = genuine S tr"
  "genuine S (Rm q Deleted # tr) = genuine S tr"
  "genuine S (Rm q Absent # tr) = genuine S tr"
  "genuine S (tr1 @ tr2) = (genuine S tr1 \<and> genuine S tr2)"
  by (auto simp: genuine_def)

lemma rm_force_cases:
  obtains (deleted) w1 where "rm S w p True True = (Deleted, w1)"
  | (absent) "rm S w p True True = (Absent, w)"
  | (failed) e where "rm S w p True True = (Failed e, w)" "remove S w p True = RemoveError e"
  by (cases "remove S w p True") (auto simp: rm_def)

lemma cleanMatched_run:
  "cleanMatched S L dir False w n fs = (r, w', tr) \<Longrightarrow>
     genuine S tr \<and> (\<forall>ev \<in> set tr. isRm ev)
     \<and> (case r of
           Inr m \<Rightarrow> m = n + length tr \<and> (\<forall>ev \<in> set tr. \<not> isFailedRm ev)
         | Inl res \<Rightarrow> stoppedAt L dir tr res)"
proof (induction fs arbitrary: w n r w' tr)
  case Nil
  then show ?case by (auto simp: genuine_simps)
next
  case (Cons f fs)
  show ?case
  proof (cases rule: rm_force_cases[of S w "join L dir f"])
    case (deleted w1)
    obtain r1 w2 tr1 where s: "cleanMatched S L dir False w1 (n + 1) fs = (r1, w2, tr1)"
      by (cases "cleanMatched S L dir False w1 (n + 1) fs") auto
    from Cons.prems deleted s have eq: "r = r1" "tr = Rm (join L dir f) Deleted # tr1"
      by (simp_all add: Let_def)
    from Cons.IH[OF s] eq show ?thesis
      by (cases r1) (auto simp: genuine_simps intro: stoppedAt_Cons)
  next
    case absent
    obtain r1 w2 tr1 where s: "cleanMatched S L dir False w (n + 1) fs = (r1, w2, tr1)"
      by (cases "cleanMatched S L dir False w (n + 1) fs") auto
    from Cons.prems absent s have eq: "r = r1" "tr = Rm (join L dir f) Absent # tr1"
      by (simp_all add: Let_def)
    from Cons.IH[OF s] eq show ?thesis
      by (cases r1) (auto simp: genuine_simps intro: stoppedAt_Cons)
  next
    case (failed e)
    with Cons.prems have "r = Inl (failure (DeleteFailed f) (Some e))"
      "tr = [Rm (join L dir f) (Failed e)]"
      by (simp_all add: Let_def)
    with failed show ?thesis by (auto simp: genuine_def stoppedAt_single)
  qed
qed

lemma cleanPatterns_run:
  "cleanPatterns S L dir False w n pats = (r, w', tr) \<Longrightarrow>
     genuine S tr
     \<and> (case r of
           Inr m \<Rightarrow> m = n + length (filter isRm tr) \<and> (\<forall>ev \<in> set tr. \<not> isFailedRm ev)
         | Inl res \<Rightarrow>
             ((\<exists>err. res = failure (CleanFailed dir) (Some err)) \<and> (\<forall>ev \<in> set tr. \<not> isFailedRm ev))
             \<or> stoppedAt L dir tr res)"
proof (induction pats arbitrary: w n r w' tr)
  case Nil
  then show ?case by (auto simp: genuine_simps)
next
  case (Cons pattern rest)
  show ?case
  proof (cases "glob S w pattern dir")
    case (Inl err)
    with Cons.prems show ?thesis by (auto simp: genuine_simps)
  next
    case (Inr matchedFiles)
    obtain r1 w1 tr1 where m: "cleanMatched S L dir False w n matchedFiles = (r1, w1, tr1)"
      by (cases "cleanMatched S L dir False w n matchedFiles") auto
    note m1 = cleanMatched_run[OF m]
    show ?thesis
    proof (cases r1)
      case (Inl res)
      with Cons.prems Inr m have "r = Inl res" "tr = Glob pattern dir # tr1" by simp_all
      with m1 Inl show ?thesis by (auto simp: genuine_simps intro: stoppedAt_Cons)
    next
      case (Inr k)
      obtain r2 w2 tr2 where p: "cleanPatterns S L dir False w1 k rest = (r2, w2, tr2)"
        by (cases "cleanPatterns S L dir False w1 k rest") auto
      from Cons.prems \<open>glob S w pattern dir = Inr matchedFiles\<close> m Inr p
      have eq: "r = r2" "tr = Glob pattern dir # tr1 @ tr2" by simp_all
      from m1 Inr have t1: "genuine S tr1" "\<forall>ev \<in> set tr1. isRm ev" "k = n + length tr1"
        "\<forall>ev \<in> set tr1. \<not> isFailedRm ev" by auto
      from t1(2) have f1: "filter isRm tr1 = tr1" by (simp add: filter_id_conv)
      have nf: "\<forall>ev \<in> set (Glob pattern dir # tr1). \<not> isFailedRm ev" using t1(4) by simp
      from Cons.IH[OF p] show ?thesis
      proof (cases r2)
        case (Inl res)
        with Cons.IH[OF p] eq t1 nf stoppedAt_append[OF nf, of L dir tr2 res] show ?thesis
          by (auto simp: genuine_simps)
      next
        case (Inr m2)
        with Cons.IH[OF p] eq t1 f1 show ?thesis by (auto simp: genuine_simps)
      qed
    qed
  qed
qed

lemma failed_is_last:
  assumes "pre @ Rm q (Failed e) # post = pre' @ [Rm q' (Failed e')]"
    and "\<forall>ev \<in> set pre'. \<not> isFailedRm ev"
  shows "post = [] \<and> q = q' \<and> e = e'"
proof (cases post rule: rev_cases)
  case Nil
  with assms(1) show ?thesis by simp
next
  case (snoc ys y)
  with assms(1) have "pre' = pre @ Rm q (Failed e) # ys" by simp
  with assms(2) show ?thesis by simp
qed

text \<open>
  Claim C5.  In a clean run without dry-run, a removal that fails is the last thing the run
  does: nothing follows it in the trace (no further removal, no further pattern), and the
  result is unsuccessful, names the file and carries the error of that removal.  Such a
  failure always comes from a removal the system refused, never from a target that was
  already absent: with \<^verbatim>\<open>force\<close> an absent target counts as cleaned, and a run in which no
  removal failed (and no \<^verbatim>\<open>glob\<close> threw) succeeds, counting every removal it made.
\<close>

theorem executeClean_first_error_stops:
  assumes "executeClean S L w proj False v = (r, w', tr)"
  shows "(\<forall>pre q e post. tr = pre @ Rm q (Failed e) # post \<longrightarrow>
            post = [] \<and> \<not> success r \<and> error r = Some e
            \<and> (\<exists>f. q = join L (path proj) f \<and> message r = DeleteFailed f)
            \<and> (\<exists>w0. remove S w0 q True = RemoveError e))
       \<and> ((\<forall>ev \<in> set tr. \<not> isFailedRm ev) \<and> message r \<noteq> CleanFailed (path proj) \<longrightarrow>
            success r \<and> message r = CleanSucceeded (path proj) (length (filter isRm tr)))"
proof -
  obtain r0 where c: "cleanPatterns S L (path proj) False w 0 filesToClean = (r0, w', tr)"
    and r: "r = (case r0 of Inl res \<Rightarrow> res | Inr n \<Rightarrow> ok (CleanSucceeded (path proj) n) None)"
    using assms
    by (cases "cleanPatterns S L (path proj) False w 0 filesToClean")
       (auto simp: executeClean_def split: sum.splits)
  note run = cleanPatterns_run[OF c]
  have first: "post = [] \<and> \<not> success r \<and> error r = Some e
            \<and> (\<exists>f. q = join L (path proj) f \<and> message r = DeleteFailed f)
            \<and> (\<exists>w0. remove S w0 q True = RemoveError e)"
    if t: "tr = pre @ Rm q (Failed e) # post" for pre q e post
  proof -
    from t have bad: "\<not> (\<forall>ev \<in> set tr. \<not> isFailedRm ev)" by auto
    from t run have g: "\<exists>w0. remove S w0 q True = RemoveError e" by (auto simp: genuine_def)
    from run bad obtain res where res: "r0 = Inl res" "stoppedAt L (path proj) tr res"
      by (cases r0) auto
    then obtain pre' f e' where p: "tr = pre' @ [Rm (join L (path proj) f) (Failed e')]"
      "\<forall>ev \<in> set pre'. \<not> isFailedRm ev" "res = failure (DeleteFailed f) (Some e')"
      unfolding stoppedAt_def by blast
    from t p(1) have "pre @ Rm q (Failed e) # post = pre' @ [Rm (join L (path proj) f) (Failed e')]"
      by simp
    from failed_is_last[OF this p(2)]
    have "post = []" "q = join L (path proj) f" "e = e'" by auto
    with g r res(1) p(3) show ?thesis by (auto simp: failure_def)
  qed
  have second: "success r \<and> message r = CleanSucceeded (path proj) (length (filter isRm tr))"
    if nf: "\<forall>ev \<in> set tr. \<not> isFailedRm ev" and nc: "message r \<noteq> CleanFailed (path proj)"
  proof (cases r0)
    case (Inl res)
    with run nf have "(\<exists>err. res = failure (CleanFailed (path proj)) (Some err)) \<or> stoppedAt L (path proj) tr res"
      by auto
    moreover have "\<not> stoppedAt L (path proj) tr res" using nf by (auto simp: stoppedAt_def)
    ultimately show ?thesis using nc r Inl by (auto simp: failure_def)
  next
    case (Inr n)
    with run r show ?thesis by (auto simp: ok_def)
  qed
  from first second show ?thesis by blast
qed

lemma lockedRun:
  "executeClean sim posix lockedWorld nodeProject False False =
     (failure (DeleteFailed ''dist'') (Some ''EPERM''), lockedWorld,
      [Glob ''test-dist'' ''/p'', Glob ''*.log'' ''/p'', Glob ''bin'' ''/p'', Rm ''/p/bin'' Absent,
       Glob ''dist'' ''/p''] @ Rm ''/p/dist'' (Failed ''EPERM'') # [])"
  by code_simp

lemma vanishedRun:
  "executeClean sim posix vanishedWorld nodeProject False False =
     (ok (CleanSucceeded ''/p'' 2) None,
      vanishedWorld\<lparr> regularFiles := [''/p/package.json'', ''/q/app.csproj''],
                      directories := [''/p'', ''/q''] \<rparr>,
      [Glob ''test-dist'' ''/p'', Glob ''*.log'' ''/p'', Glob ''bin'' ''/p'', Rm ''/p/bin'' Absent,
       Glob ''dist'' ''/p'', Rm ''/p/dist'' Deleted, Glob ''node_modules'' ''/p'',
       Glob ''package-lock.json'' ''/p'', Glob ''pnpm-lock.yaml'' ''/p'', Glob ''bun.lockb'' ''/p'',
       Glob ''obj'' ''/p'', Glob ''release'' ''/p'', Glob ''build'' ''/p'', Glob ''out'' ''/p'',
       Glob ''.turbo'' ''/p'', Glob ''.expo'' ''/p''])"
  by code_simp

theorem executeClean_first_error_stops_witness:
  "traceOf (executeClean sim posix lockedWorld nodeProject False False) =
      [Glob ''test-dist'' ''/p'', Glob ''*.log'' ''/p'', Glob ''bin'' ''/p'', Rm ''/p/bin'' Absent,
       Glob ''dist'' ''/p'', Rm ''/p/dist'' (Failed ''EPERM'')]
   \<and> \<not> success (failure (DeleteFailed ''dist'') (Some ''EPERM''))
   \<and> error (failure (DeleteFailed ''dist'') (Some ''EPERM'')) = Some ''EPERM''
   \<and> (\<exists>w0. remove sim w0 ''/p/dist'' True = RemoveError ''EPERM'')
   \<and> Rm ''/p/bin'' Absent \<in> set (traceOf (executeClean sim posix vanishedWorld nodeProject False False))
   \<and> success (ok (CleanSucceeded ''/p'' 2) None)
   \<and> message (ok (CleanSucceeded ''/p'' 2) None) = CleanSucceeded (path nodeProject) 2"
proof -
  from executeClean_first_error_stops[OF lockedRun]
  have a: "\<not> success (failure (DeleteFailed ''dist'') (Some ''EPERM''))
     \<and> error (failure (DeleteFailed ''dist'') (Some ''EPERM'')) = Some ''EPERM''
     \<and> (\<exists>w0. remove sim w0 ''/p/dist'' True = RemoveError ''EPERM'')"
    by blast
  have nf: "\<forall>ev \<in> set [Glob ''test-dist'' ''/p'', Glob ''*.log'' ''/p'', Glob ''bin'' ''/p'', Rm ''/p/bin'' Absent,
       Glob ''dist'' ''/p'', Rm ''/p/dist'' Deleted, Glob ''node_modules'' ''/p'',
       Glob ''package-lock.json'' ''/p'', Glob ''pnpm-lock.yaml'' ''/p'', Glob ''bun.lockb'' ''/p'',
       Glob ''obj'' ''/p'', Glob ''release'' ''/p'', Glob ''build'' ''/p'', Glob ''out'' ''/p'',
       Glob ''.turbo'' ''/p'', Glob ''.expo'' ''/p'']. \<not> isFailedRm ev"
    by simp
  have nc: "message (ok (CleanSucceeded ''/p'' 2) None) \<noteq> CleanFailed (path nodeProject)"
    by (simp add: ok_def)
  from executeClean_first_error_stops[OF vanishedRun, THEN conjunct2, THEN mp, OF conjI[OF nf nc]]
  have b: "success (ok (CleanSucceeded ''/p'' 2) None)
     \<and> message (ok (CleanSucceeded ''/p'' 2) None) = CleanSucceeded (path nodeProject) 2"
    by simp
  from a b show ?thesis by (simp add: lockedRun vanishedRun traceOf_def)
qed

section \<open>Archive: nothing to archive\<close>

lemma collectFiles_eq:
  "collectFiles S L w dir ex pats =
     (filter (survives S L w dir ex) pats, map (\<lambda>f. Stat (join L dir f)) pats)"
  by (induction pats) (auto simp: Let_def survives_def split: sum.splits)

lemma readCompressionConfig_trace:
  "set (snd (readCompressionConfig S w proj fmt)) \<subseteq> {ReadFile (manifestFile proj)}"
  by (auto simp: readCompressionConfig_def split: ProjectType.splits sum.splits)

text \<open>
  Claim C6.  Without the dry-run flag, when no entry of the include list both exists (as a
  directory or a regular file) and passes the exclusion test, \<^verbatim>\<open>executeZip\<close> returns the
  unsuccessful result whose message says that nothing to compress was found, with no error
  text and no output file; it has only read the manifest and called \<^verbatim>\<open>stat\<close>, so no write
  stream was opened, and the world is as it was.
\<close>

theorem executeZip_nothing_to_archive:
  assumes "\<not> dryRun opts"
    and "readCompressionConfig S w proj (formatOption opts) = (config, tr0)"
    and "\<forall>f \<in> set (includeList config). \<not> survives S L w (path proj) (excludeList config) f"
  shows "resultOf (executeZip S L w proj opts) =
           \<lparr> success = False, message = NothingToCompress (path proj), error = None,
             outputFile = None \<rparr>
       \<and> worldOf (executeZip S L w proj opts) = w
       \<and> (\<forall>ev \<in> set (traceOf (executeZip S L w proj opts)).
             ev = ReadFile (manifestFile proj) \<or> (\<exists>f. ev = Stat f))"
proof -
  from assms(3) have none: "filter (survives S L w (path proj) (excludeList config)) (includeList config) = []"
    by (simp add: filter_empty_conv)
  from readCompressionConfig_trace[of S w proj "formatOption opts"] assms(2)
  have tr0: "set tr0 \<subseteq> {ReadFile (manifestFile proj)}" by simp
  have "executeZip S L w proj opts =
          (failure (NothingToCompress (path proj)) None, w,
           tr0 @ map (\<lambda>f. Stat (join L (path proj) f)) (includeList config))"
    using assms(1,2) none
    by (simp add: executeZip_def Let_def collectFiles_eq includeList_def excludeList_def)
  with tr0 show ?thesis
    by (auto simp: resultOf_def worldOf_def traceOf_def failure_def)
qed

lemma bare_config:
  "readCompressionConfig sim bareWorld nodeProject Zip = (nodeDefaultConfig Zip, [ReadFile ''/p/package.json''])"
  by (simp add: readCompressionConfig_def sim_def bareWorld_def nodeProject_def mergeConfig_def)

lemma posix_join_p:
  "posix_join ''/p'' ''dist'' = ''/p/dist''" "posix_join ''/p'' ''build'' = ''/p/build''"
  "posix_join ''/p'' ''out'' = ''/p/out''"
  by (simp_all add: posix_join_def posix_normalize_def Let_def)

theorem executeZip_nothing_to_archive_witness:
  "resultOf (executeZip sim posix bareWorld nodeProject options) =
     \<lparr> success = False, message = NothingToCompress ''/p'', error = None, outputFile = None \<rparr>
   \<and> worldOf (executeZip sim posix bareWorld nodeProject options) = bareWorld"
proof -
  have 1: "\<not> dryRun options" by (simp add: options_def)
  have 2: "readCompressionConfig sim bareWorld nodeProject (formatOption options)
             = (nodeDefaultConfig Zip, [ReadFile ''/p/package.json''])"
    by (simp add: bare_config options_def)
  have 3: "\<forall>f \<in> set (includeList (nodeDefaultConfig Zip)).
             \<not> survives sim posix bareWorld (path nodeProject) (excludeList (nodeDefaultConfig Zip)) f"
    by (simp add: includeList_def nodeDefaultConfig_def survives_def sim_def simStat_def
          bareWorld_def nodeProject_def posix_def posix_join_p)
  from executeZip_nothing_to_archive[OF 1 2 3] show ?thesis
    by (simp add: nodeProject_def)
qed

section \<open>Archive: what the exclusion patterns reach\<close>

lemma addEntries_events:
  "Archive e \<in> set (snd (addEntries S L w dir fs)) \<Longrightarrow>
     \<exists>f \<in> set fs. e = DirectoryEntry (join L dir f) (basename L f)
                   \<or> e = FileEntry (join L dir f) (basename L f)"
proof (induction fs)
  case Nil
  then show ?case by simp
next
  case (Cons f fs)
  then show ?case
    by (cases "stat S w (join L dir f)"; cases "addEntries S L w dir fs"; cases "fst (addEntries S L w dir fs)")
       (auto simp: Let_def split: if_splits)
qed

lemma executeZip_archive_events:
  assumes "Archive e \<in> set (traceOf (executeZip S L w proj opts))"
    and "readCompressionConfig S w proj (formatOption opts) = (config, tr0)"
  shows "\<exists>f \<in> set (includeList config).
           survives S L w (path proj) (excludeList config) f
           \<and> (e = DirectoryEntry (join L (path proj) f) (basename L f)
                \<or> e = FileEntry (join L (path proj) f) (basename L f))"
proof -
  define kept where "kept = filter (survives S L w (path proj) (excludeList config)) (includeList config)"
  define outputPath where "outputPath = join L (path proj)
     (generateOutputFilename L (toISOString S w) proj
        (case format config of Some f \<Rightarrow> f | None \<Rightarrow> formatOption opts)
        (case outputTemplate config of
           Some t \<Rightarrow> if t \<noteq> [] then t else outputOption opts
         | None \<Rightarrow> outputOption opts))"
  from readCompressionConfig_trace[of S w proj "formatOption opts"] assms(2)
  have tr0: "Archive e \<notin> set tr0" by auto
  have "Archive e \<in> set (snd (addEntries S L (createWriteStream S w outputPath) (path proj) kept))"
    using assms tr0
    by (cases "addEntries S L (createWriteStream S w outputPath) (path proj) kept";
        cases "fst (addEntries S L (createWriteStream S w outputPath) (path proj) kept)")
       (auto simp: executeZip_def traceOf_def Let_def collectFiles_eq includeList_def
          excludeList_def kept_def outputPath_def split: if_splits sum.splits)
  from addEntries_events[OF this] show ?thesis
    by (auto simp: kept_def)
qed

text \<open>
  Claim C9.  Every entry \<^verbatim>\<open>executeZip\<close> appends to the archive is a whole top-level entry of
  the include list, one that passed the exclusion test; that test looks at the base name of
  the path it is given and at nothing else; and nothing tests what lies inside an appended
  directory.  So in the node project whose \<^verbatim>\<open>dist\<close> holds \<^verbatim>\<open>debug.log\<close>, a file the
  pattern \<^verbatim>\<open>*.log\<close> excludes, the run succeeds, appends \<^verbatim>\<open>dist\<close> as one directory, and the
  archive written holds \<^verbatim>\<open>dist/debug.log\<close>.
\<close>

theorem executeZip_archives_excluded_contents:
  "(Archive e \<in> set (traceOf (executeZip S L w proj opts)) \<longrightarrow>
      (\<exists>f \<in> set (includeList (fst (readCompressionConfig S w proj (formatOption opts)))).
          \<not> shouldExclude L (join L (path proj) f)
               (excludeList (fst (readCompressionConfig S w proj (formatOption opts))))
          \<and> (e = DirectoryEntry (join L (path proj) f) (basename L f)
               \<or> e = FileEntry (join L (path proj) f) (basename L f))))
   \<and> (basename L p = basename L q \<longrightarrow> shouldExclude L p pats = shouldExclude L q pats)
   \<and> shouldExclude posix ''/p/dist/debug.log'' (excludeList (nodeDefaultConfig Zip))
   \<and> success (resultOf (executeZip sim posix world nodeProject options))
   \<and> traceOf (executeZip sim posix world nodeProject options) =
       [ReadFile ''/p/package.json'', Stat ''/p/dist'', Stat ''/p/build'', Stat ''/p/out'',
        CreateWriteStream ''/p/p-2024-05-06T07-08-09.zip'', Stat ''/p/dist'',
        Archive (DirectoryEntry ''/p/dist'' ''dist''), Finalize ''/p/p-2024-05-06T07-08-09.zip'']
   \<and> archives (worldOf (executeZip sim posix world nodeProject options)) =
       [(''/p/p-2024-05-06T07-08-09.zip'', [''dist/app.js'', ''dist/debug.log''])]"
proof (intro conjI impI)
  assume a: "Archive e \<in> set (traceOf (executeZip S L w proj opts))"
  obtain config tr0 where c: "readCompressionConfig S w proj (formatOption opts) = (config, tr0)"
    by (cases "readCompressionConfig S w proj (formatOption opts)") auto
  from executeZip_archive_events[OF a c] obtain f where f: "f \<in> set (includeList config)"
      "survives S L w (path proj) (excludeList config) f"
      "e = DirectoryEntry (join L (path proj) f) (basename L f)
         \<or> e = FileEntry (join L (path proj) f) (basename L f)"
    by blast
  from f(2) have "\<not> shouldExclude L (join L (path proj) f) (excludeList config)"
    by (cases "stat S w (join L (path proj) f)") (auto simp: survives_def)
  with f c
  show "\<exists>f \<in> set (includeList (fst (readCompressionConfig S w proj (formatOption opts)))).
          \<not> shouldExclude L (join L (path proj) f)
               (excludeList (fst (readCompressionConfig S w proj (formatOption opts))))
          \<and> (e = DirectoryEntry (join L (path proj) f) (basename L f)
               \<or> e = FileEntry (join L (path proj) f) (basename L f))"
    by auto
next
  assume "basename L p = basename L q"
  then show "shouldExclude L p pats = shouldExclude L q pats"
    by (simp add: shouldExclude_def)
next
  show "shouldExclude posix ''/p/dist/debug.log'' (excludeList (nodeDefaultConfig Zip))"
    by code_simp
next
  show "success (resultOf (executeZip sim posix world nodeProject options))"
    by code_simp
next
  show "traceOf (executeZip sim posix world nodeProject options) =
       [ReadFile ''/p/package.json'', Stat ''/p/dist'', Stat ''/p/build'', Stat ''/p/out'',
        CreateWriteStream ''/p/p-2024-05-06T07-08-09.zip'', Stat ''/p/dist'',
        Archive (DirectoryEntry ''/p/dist'' ''dist''), Finalize ''/p/p-2024-05-06T07-08-09.zip'']"
    by code_simp
next
  show "archives (worldOf (executeZip sim posix world nodeProject options)) =
       [(''/p/p-2024-05-06T07-08-09.zip'', [''dist/app.js'', ''dist/debug.log''])]"
    by code_simp
qed

theorem executeZip_archives_excluded_contents_witness:
  "Archive (DirectoryEntry ''/p/dist'' ''dist'')
     \<in> set (traceOf (executeZip sim posix world nodeProject options))
   \<and> (\<exists>f \<in> set [''dist'', ''build'', ''out''].
          \<not> shouldExclude posix (posix_join ''/p'' f) [''node_modules'', ''*.log'', ''.git'']
          \<and> (DirectoryEntry ''/p/dist'' ''dist'' = DirectoryEntry (posix_join ''/p'' f) (posix_basename f)
               \<or> DirectoryEntry ''/p/dist'' ''dist'' = FileEntry (posix_join ''/p'' f) (posix_basename f)))
   \<and> posix_basename ''/p/logs/a.log'' = posix_basename ''/q/a.log''
   \<and> shouldExclude posix ''/p/logs/a.log'' [''*.log''] = shouldExclude posix ''/q/a.log'' [''*.log'']"
proof -
  note t = executeZip_archives_excluded_contents[where S = sim and L = posix and w = world
      and proj = nodeProject and opts = options and e = "DirectoryEntry ''/p/dist'' ''dist''"
      and p = "''/p/logs/a.log''" and q = "''/q/a.log''" and pats = "[''*.log'']"]
  have b: "posix_basename ''/p/logs/a.log'' = posix_basename ''/q/a.log''" by code_simp
  have c: "readCompressionConfig sim world nodeProject (formatOption options)
             = (nodeDefaultConfig Zip, [ReadFile ''/p/package.json''])"
    by (simp add: readCompressionConfig_def sim_def world_def nodeProject_def mergeConfig_def
          options_def)
  from t have m: "Archive (DirectoryEntry ''/p/dist'' ''dist'')
     \<in> set (traceOf (executeZip sim posix world nodeProject options))" by simp
  from t[THEN conjunct1, THEN mp, OF m]
  have ex: "\<exists>f \<in> set [''dist'', ''build'', ''out''].
          \<not> shouldExclude posix (posix_join ''/p'' f) [''node_modules'', ''*.log'', ''.git'']
          \<and> (DirectoryEntry ''/p/dist'' ''dist'' = DirectoryEntry (posix_join ''/p'' f) (posix_basename f)
               \<or> DirectoryEntry ''/p/dist'' ''dist'' = FileEntry (posix_join ''/p'' f) (posix_basename f))"
    unfolding c by (simp add: includeList_def excludeList_def nodeDefaultConfig_def nodeProject_def posix_def)
  from t[THEN conjunct2, THEN conjunct1, THEN mp] b
  have "shouldExclude posix ''/p/logs/a.log'' [''*.log''] = shouldExclude posix ''/q/a.log'' [''*.log'']"
    by (simp add: posix_def)
  with m ex b show ?thesis by blast
qed

section \<open>Archive: the dry run returns before the include list is examined\<close>

text \<open>
  Claim C10.  For the node project with none of \<^verbatim>\<open>dist\<close>, \<^verbatim>\<open>build\<close>, \<^verbatim>\<open>out\<close>, the dry run
  of \<^verbatim>\<open>executeZip\<close> returns success with the preview of the archive it would write, while
  the same call without the flag returns the nothing-to-compress failure.
\<close>

theorem executeZip_dry_run_hides_nothing_to_archive:
  "resultOf (executeZip sim posix bareWorld nodeProject (options\<lparr> dryRun := True \<rparr>)) =
     \<lparr> success = True, message = DryRunZip ''/p'' ''p-2024-05-06T07-08-09.zip'', error = None,
       outputFile = Some ''p-2024-05-06T07-08-09.zip'' \<rparr>
   \<and> resultOf (executeZip sim posix bareWorld nodeProject (options\<lparr> dryRun := False \<rparr>)) =
     \<lparr> success = False, message = NothingToCompress ''/p'', error = None, outputFile = None \<rparr>"
  by code_simp

section \<open>Dry run: what the strategies do and return\<close>













end
